theory Spec2Isabelle
  imports Main "HOL-Library.List_Lexorder"
begin

section \<open>JavaScript strings and arrays\<close>

text \<open>
  Strings are lists of characters. A character of the model stands for one
  code unit of a JavaScript string, and the model has the code units below 256;
  the whitespace and letter-case tables below are JavaScript's on that range.
  Numbers that the tools receive (\<open>offset\<close>, \<open>limit\<close>, \<open>maxResults\<close>) are
  modelled as integers.
\<close>

text \<open>\<open>s.split(re)\<close> for a regular expression matching exactly one
  character out of a class, and \<open>s.split(c)\<close> for a one-character string.\<close>

fun split_where :: "(char \<Rightarrow> bool) \<Rightarrow> string \<Rightarrow> string list" where
  "split_where P [] = [[]]"
| "split_where P (x # xs) =
     (if P x then [] # split_where P xs
      else (case split_where P xs of
              [] \<Rightarrow> [[x]]
            | w # ws \<Rightarrow> (x # w) # ws))"

definition split_on :: "char \<Rightarrow> string \<Rightarrow> string list" where
  "split_on c s = split_where (\<lambda>x. x = c) s"

text \<open>\<open>xs.join(sep)\<close>\<close>

fun join_with :: "string \<Rightarrow> string list \<Rightarrow> string" where
  "join_with sep [] = []"
| "join_with sep [x] = x"
| "join_with sep (x # y # ys) = x @ sep @ join_with sep (y # ys)"

text \<open>\<open>xs.slice(start, fin)\<close> on integers: a negative index counts from the
  end, and both indices are clamped to the array.\<close>

definition clamp_index :: "nat \<Rightarrow> int \<Rightarrow> nat" where
  "clamp_index len i = (if i < 0 then nat (max (int len + i) 0) else min (nat i) len)"

definition js_slice :: "int \<Rightarrow> int \<Rightarrow> 'a list \<Rightarrow> 'a list" where
  "js_slice start fin xs =
     (let k = clamp_index (length xs) start;
          e = clamp_index (length xs) fin
      in take (e - k) (drop k xs))"

text \<open>The white space of \<open>\\s\<close>, \<open>trim\<close> and \<open>parseInt\<close>: tab, line feed,
  vertical tab, form feed, carriage return, space and the no-break space.\<close>

definition is_space :: "char \<Rightarrow> bool" where
  "is_space c = (c = CHR '' '' \<or> c = CHR 0x09 \<or> c = CHR 0x0A \<or> c = CHR 0x0B
                 \<or> c = CHR 0x0C \<or> c = CHR 0x0D \<or> c = CHR 0xA0)"

text \<open>\<open>s.trim()\<close>\<close>

definition trim :: "string \<Rightarrow> string" where
  "trim s = rev (dropWhile is_space (rev (dropWhile is_space s)))"

text \<open>\<open>s.toLowerCase()\<close>: the letters \<open>A\<close> to \<open>Z\<close>, and the capital letters
  of the range from \<open>0xC0\<close> to \<open>0xDE\<close> (the multiplication sign \<open>0xD7\<close> is not
  one), go to the letter 32 places on.\<close>

definition upper_letters :: string where
  "upper_letters = ''ABCDEFGHIJKLMNOPQRSTUVWXYZ'' @ [
        CHR 0xC0, CHR 0xC1, CHR 0xC2, CHR 0xC3, CHR 0xC4, CHR 0xC5, CHR 0xC6, CHR 0xC7,
        CHR 0xC8, CHR 0xC9, CHR 0xCA, CHR 0xCB, CHR 0xCC, CHR 0xCD, CHR 0xCE, CHR 0xCF,
        CHR 0xD0, CHR 0xD1, CHR 0xD2, CHR 0xD3, CHR 0xD4, CHR 0xD5, CHR 0xD6, CHR 0xD8,
        CHR 0xD9, CHR 0xDA, CHR 0xDB, CHR 0xDC, CHR 0xDD, CHR 0xDE]"

definition lower_letters :: string where
  "lower_letters = ''abcdefghijklmnopqrstuvwxyz'' @ [
        CHR 0xE0, CHR 0xE1, CHR 0xE2, CHR 0xE3, CHR 0xE4, CHR 0xE5, CHR 0xE6, CHR 0xE7,
        CHR 0xE8, CHR 0xE9, CHR 0xEA, CHR 0xEB, CHR 0xEC, CHR 0xED, CHR 0xEE, CHR 0xEF,
        CHR 0xF0, CHR 0xF1, CHR 0xF2, CHR 0xF3, CHR 0xF4, CHR 0xF5, CHR 0xF6, CHR 0xF8,
        CHR 0xF9, CHR 0xFA, CHR 0xFB, CHR 0xFC, CHR 0xFD, CHR 0xFE]"

definition toLowerCase_char :: "char \<Rightarrow> char" where
  "toLowerCase_char c =
     (case map_of (zip upper_letters lower_letters) c of
        None \<Rightarrow> c
      | Some d \<Rightarrow> d)"

definition toLowerCase :: "string \<Rightarrow> string" where
  "toLowerCase s = map toLowerCase_char s"

definition startsWith :: "string \<Rightarrow> string \<Rightarrow> bool" where
  "startsWith s p = (take (length p) s = p)"

definition endsWith :: "string \<Rightarrow> string \<Rightarrow> bool" where
  "endsWith s p = (length p \<le> length s \<and> drop (length s - length p) s = p)"

text \<open>\<open>s.includes(t)\<close>: \<open>t\<close> occurs in \<open>s\<close> as a contiguous substring.\<close>

fun str_includes :: "string \<Rightarrow> string \<Rightarrow> bool" where
  "str_includes [] t = (t = [])"
| "str_includes (c # cs) t = (startsWith (c # cs) t \<or> str_includes cs t)"

text \<open>Decimal rendering of a number (\<open>n.toString()\<close>) and \<open>s.padStart(k, "0")\<close>.\<close>

definition digit_char :: "nat \<Rightarrow> char" where
  "digit_char d = ''0123456789'' ! (d mod 10)"

fun show_nat :: "nat \<Rightarrow> string" where
  "show_nat n = (if n < 10 then [digit_char n] else show_nat (n div 10) @ [digit_char (n mod 10)])"

declare show_nat.simps [simp del]

definition show_int :: "int \<Rightarrow> string" where
  "show_int i = (if i < 0 then CHR ''-'' # show_nat (nat (- i)) else show_nat (nat i))"

definition padStart :: "nat \<Rightarrow> char \<Rightarrow> string \<Rightarrow> string" where
  "padStart k c s = replicate (k - length s) c @ s"


section \<open>Node's \<open>path\<close> module (POSIX flavour)\<close>

text \<open>
  The tools call \<open>path.join\<close>, \<open>path.resolve\<close>, \<open>path.relative\<close>,
  \<open>path.dirname\<close>, \<open>path.basename\<close> and \<open>path.isAbsolute\<close>. They are
  modelled on path segments: empty and \<open>.\<close> segments are dropped, a \<open>..\<close>
  segment removes the segment before it.
\<close>

definition path_isAbsolute :: "string \<Rightarrow> bool" where
  "path_isAbsolute p = (case p of [] \<Rightarrow> False | c # _ \<Rightarrow> c = CHR ''/'')"

text \<open>One step of the normalisation; the accumulator holds the segments kept so
  far, last one first.\<close>

definition normalize_step :: "bool \<Rightarrow> string list \<Rightarrow> string \<Rightarrow> string list" where
  "normalize_step allowAboveRoot acc seg =
     (if seg = [] \<or> seg = ''.'' then acc
      else if seg = ''..'' then
        (case acc of
           [] \<Rightarrow> (if allowAboveRoot then [''..''] else [])
         | t # ts \<Rightarrow> (if t = ''..'' then (if allowAboveRoot then ''..'' # acc else acc) else ts))
      else seg # acc)"

definition normalize_segs :: "bool \<Rightarrow> string list \<Rightarrow> string list" where
  "normalize_segs allowAboveRoot segs = rev (foldl (normalize_step allowAboveRoot) [] segs)"

definition path_normalize :: "string \<Rightarrow> string" where
  "path_normalize p =
     (if p = [] then ''.''
      else
        (let isAbs = path_isAbsolute p;
             trailing = (last p = CHR ''/'');
             s = join_with ''/'' (normalize_segs (\<not> isAbs) (split_on CHR ''/'' p))
         in if s = [] then (if isAbs then ''/'' else if trailing then ''./'' else ''.'')
            else (if isAbs then ''/'' else []) @ s @ (if trailing then ''/'' else [])))"

definition path_join :: "string list \<Rightarrow> string" where
  "path_join parts =
     (let ps = filter (\<lambda>p. p \<noteq> []) parts
      in if ps = [] then ''.'' else path_normalize (join_with ''/'' ps))"

text \<open>\<open>path.resolve\<close>: the arguments are taken from the right up to the first
  absolute one; the working directory stands in front when none is.\<close>

fun resolve_parts :: "string list \<Rightarrow> string list" where
  "resolve_parts [] = []"
| "resolve_parts (p # ps) =
     (let rest = resolve_parts ps
      in if list_ex path_isAbsolute ps then rest else p # rest)"

definition resolve_segs :: "string \<Rightarrow> string list \<Rightarrow> string list" where
  "resolve_segs cwd parts =
     normalize_segs False (concat (map (split_on CHR ''/'') (resolve_parts (cwd # parts))))"

definition path_resolve :: "string \<Rightarrow> string list \<Rightarrow> string" where
  "path_resolve cwd parts = CHR ''/'' # join_with ''/'' (resolve_segs cwd parts)"

fun drop_common :: "string list \<Rightarrow> string list \<Rightarrow> string list \<times> string list" where
  "drop_common (x # xs) (y # ys) = (if x = y then drop_common xs ys else (x # xs, y # ys))"
| "drop_common xs ys = (xs, ys)"

definition path_relative :: "string \<Rightarrow> string \<Rightarrow> string \<Rightarrow> string" where
  "path_relative cwd from to =
     (let (f, t) = drop_common (resolve_segs cwd [from]) (resolve_segs cwd [to])
      in join_with ''/'' (replicate (length f) ''..'' @ t))"

definition path_dirname :: "string \<Rightarrow> string" where
  "path_dirname p =
     (if p = [] then ''.''
      else
        (let hasRoot = path_isAbsolute p;
             r = dropWhile (\<lambda>c. c \<noteq> CHR ''/'') (dropWhile (\<lambda>c. c = CHR ''/'') (rev (tl p)))
         in if r = [] then (if hasRoot then ''/'' else ''.'')
            else if hasRoot \<and> length r = 1 then ''//''
            else take (length r) p))"

definition path_basename :: "string \<Rightarrow> string" where
  "path_basename p =
     rev (takeWhile (\<lambda>c. c \<noteq> CHR ''/'') (dropWhile (\<lambda>c. c = CHR ''/'') (rev p)))"


section \<open>The file system\<close>

text \<open>
  A file system is a tree. A regular file carries the size that \<open>statSync\<close>
  reports and the text that \<open>readFileSync(_, "utf-8")\<close> returns; a directory
  carries its entries in \<open>readdirSync\<close> order. \<open>Special\<close> is an entry that exists
  and is neither (a device, a FIFO, a socket), with the size and the text that the same
  two calls give for it. \<open>Link n\<close> is a symbolic link to \<open>n\<close>, and \<open>Dangling\<close> a
  link to nothing: \<open>readdirSync\<close> lists both as neither file nor directory, path
  resolution follows the first to its target and finds nothing at the second.
\<close>

datatype node =
  File nat string | Dir "(string \<times> node) list" | Special nat string | Link node | Dangling

record fs_env =
  cwd :: string
  root :: node

fun target :: "node \<Rightarrow> node" where
  "target (Link n) = target n"
| "target n = n"

text \<open>Path resolution as the operating system does it: \<open>walk n anc segs\<close>
  follows \<open>segs\<close> from node \<open>n\<close>, whose ancestors are \<open>anc\<close>. The target of a
  link is held in the place of the link.\<close>

fun walk :: "node \<Rightarrow> node list \<Rightarrow> string list \<Rightarrow> node option" where
  "walk n anc [] = (case target n of Dangling \<Rightarrow> None | t \<Rightarrow> Some t)"
| "walk n anc (s # ss) =
     (case target n of
        Dir es \<Rightarrow>
          (if s = [] \<or> s = ''.'' then walk (Dir es) anc ss
           else if s = ''..'' then
             (case anc of [] \<Rightarrow> walk (Dir es) [] ss | p # ps \<Rightarrow> walk p ps ss)
           else (case map_of es s of None \<Rightarrow> None | Some c \<Rightarrow> walk c (Dir es # anc) ss))
      | t \<Rightarrow> None)"

definition fs_lookup :: "fs_env \<Rightarrow> string \<Rightarrow> node option" where
  "fs_lookup env p =
     (if p = [] then None
      else walk (root env) []
             (split_on CHR ''/'' (if path_isAbsolute p then p else cwd env @ ''/'' @ p)))"

definition existsSync :: "fs_env \<Rightarrow> string \<Rightarrow> bool" where
  "existsSync env p = (fs_lookup env p \<noteq> None)"

text \<open>An exception: \<open>Error msg\<close> is a \<open>new Error(msg)\<close> thrown by the tool,
  \<open>SystemError code\<close> an error thrown by a file-system call.\<close>

datatype js_error = Error string | SystemError string

definition readdirSync :: "fs_env \<Rightarrow> string \<Rightarrow> js_error + (string \<times> node) list" where
  "readdirSync env p =
     (case fs_lookup env p of
        None \<Rightarrow> Inl (SystemError ''ENOENT'')
      | Some (Dir es) \<Rightarrow> Inr es
      | Some n \<Rightarrow> Inl (SystemError ''ENOTDIR''))"


section \<open>The read tool\<close>

definition DEFAULT_READ_LIMIT :: int where
  "DEFAULT_READ_LIMIT = 2000"

definition MAX_LINE_LENGTH :: nat where
  "MAX_LINE_LENGTH = 2000"

record read_result =
  content :: string
  totalLines :: nat
  hasMore :: bool

text \<open>The lines of the window \<open>[offset, offset + limit)\<close>, long lines cut.\<close>

definition truncate_line :: "string \<Rightarrow> string" where
  "truncate_line line =
     (if length line > MAX_LINE_LENGTH then take MAX_LINE_LENGTH line @ ''...'' else line)"

definition selectedLines :: "string \<Rightarrow> int \<Rightarrow> int \<Rightarrow> string list" where
  "selectedLines fileContent offset limit =
     map truncate_line (js_slice offset (offset + limit) (split_on CHR 0x0A fileContent))"

definition number_line :: "int \<Rightarrow> nat \<Rightarrow> string \<Rightarrow> string" where
  "number_line offset index line =
     padStart 5 CHR ''0'' (show_int (int index + offset + 1)) @ ''| '' @ line"

definition number_lines :: "int \<Rightarrow> string list \<Rightarrow> string list" where
  "number_lines offset ls = map (\<lambda>(index, line). number_line offset index line) (enumerate 0 ls)"

definition read_file :: "string \<Rightarrow> int \<Rightarrow> int \<Rightarrow> read_result" where
  "read_file fileContent offset limit =
     (let lines = split_on CHR 0x0A fileContent;
          total = length lines;
          selected = selectedLines fileContent offset limit;
          body = join_with [CHR 0x0A] (number_lines offset selected);
          lastReadLine = offset + int (length selected);
          more = (int total > lastReadLine);
          output = ''<file>'' @ [CHR 0x0A] @ body
            @ (if more
               then [CHR 0x0A, CHR 0x0A]
                    @ ''(File has more lines. Use 'offset' parameter to read beyond line ''
                    @ show_int lastReadLine @ '')''
               else [CHR 0x0A, CHR 0x0A] @ ''(End of file - total '' @ show_nat total @ '' lines)'')
            @ [CHR 0x0A] @ ''</file>''
      in \<lparr>content = output, totalLines = total, hasMore = more\<rparr>)"

definition MAX_FILE_SIZE :: nat where
  "MAX_FILE_SIZE = 10 * 1024 * 1024"

definition suggest :: "string \<Rightarrow> string \<Rightarrow> string list \<Rightarrow> string list" where
  "suggest dir base entries =
     map (\<lambda>entry. path_join [dir, entry])
       (js_slice 0 3
          (filter (\<lambda>entry. str_includes (toLowerCase entry) base \<or> str_includes base (toLowerCase entry))
             entries))"

definition not_found :: "string \<Rightarrow> string list \<Rightarrow> js_error" where
  "not_found filePath suggestions =
     (if suggestions \<noteq> []
      then Error (''File not found: '' @ filePath @ [CHR 0x0A, CHR 0x0A]
                  @ ''Did you mean one of these?'' @ [CHR 0x0A]
                  @ join_with [CHR 0x0A] suggestions)
      else Error (''File not found: '' @ filePath))"

text \<open>Relative paths are resolved against the working directory.\<close>

definition resolved_path :: "fs_env \<Rightarrow> string \<Rightarrow> string" where
  "resolved_path env filePath =
     (if path_isAbsolute filePath then filePath else path_resolve (cwd env) [cwd env, filePath])"

text \<open>The parameters \<open>offset\<close> and \<open>limit\<close> are optional.\<close>

definition offset_of :: "int option \<Rightarrow> int" where
  "offset_of offset0 = (case offset0 of None \<Rightarrow> 0 | Some v \<Rightarrow> v)"

definition limit_of :: "int option \<Rightarrow> int" where
  "limit_of limit0 = (case limit0 of None \<Rightarrow> DEFAULT_READ_LIMIT | Some v \<Rightarrow> v)"

text \<open>After the existence check: the size ceiling, then the read. \<open>sz\<close> and
  \<open>fileContent\<close> are what \<open>statSync\<close> and \<open>readFileSync\<close> give for the path.\<close>

definition read_checked :: "nat \<Rightarrow> string \<Rightarrow> int \<Rightarrow> int \<Rightarrow> js_error + read_result" where
  "read_checked sz fileContent offset limit =
     (if sz > MAX_FILE_SIZE
      then Inl (Error (''File is too large ('' @ show_nat ((sz + 524288) div 1048576)
                       @ ''MB). Max size: 10MB''))
      else Inr (read_file fileContent offset limit))"

definition readTool :: "fs_env \<Rightarrow> string \<Rightarrow> int option \<Rightarrow> int option \<Rightarrow> js_error + read_result" where
  "readTool env filePath0 offset0 limit0 =
     (let offset = offset_of offset0;
          limit = limit_of limit0;
          filePath = resolved_path env filePath0
      in case fs_lookup env filePath of
           None \<Rightarrow>
             (let dir = path_dirname filePath;
                  base = toLowerCase (path_basename filePath)
              in if existsSync env dir
                 then (case readdirSync env dir of
                         Inl e \<Rightarrow> Inl e
                       | Inr es \<Rightarrow> Inl (not_found filePath (suggest dir base (map fst es))))
                 else Inl (not_found filePath []))
         | Some (File sz fileContent) \<Rightarrow> read_checked sz fileContent offset limit
         | Some (Special sz fileContent) \<Rightarrow> read_checked sz fileContent offset limit
         | Some (Dir es) \<Rightarrow> Inl (SystemError ''EISDIR'')
         | Some n \<Rightarrow> Inl (SystemError ''ELOOP''))"

text \<open>Two concrete file systems: a working directory \<open>/w\<close> holding a two-line
  file, and a root holding one file of a single line of 10485761 characters.\<close>

definition small_fs :: fs_env where
  "small_fs = \<lparr>cwd = ''/w'', root = Dir [(''w'', Dir [(''a.txt'', File 5 ''ab\<newline>cd'')])]\<rparr>"

definition big_fs :: fs_env where
  "big_fs = \<lparr>cwd = ''/w'', root = Dir [(''big.txt'', File 10485761 (replicate 10485761 CHR ''x''))]\<rparr>"


section \<open>Repository identity and the local path of a clone\<close>

text \<open>The cache directory: \<open>path.join(process.cwd(), "../../.repos")\<close>.\<close>

definition REPOS_DIR :: "string \<Rightarrow> string" where
  "REPOS_DIR wd = path_join [wd, ''../../.repos'']"

text \<open>\<open>repoUrl.replace(/\.git$/, "")\<close>\<close>

definition strip_git_suffix :: "string \<Rightarrow> string" where
  "strip_git_suffix repoUrl =
     (if endsWith repoUrl ''.git'' then take (length repoUrl - 4) repoUrl else repoUrl)"

definition getRepoIdentifier :: "string \<Rightarrow> string" where
  "getRepoIdentifier repoUrl =
     (let cleanUrl = strip_git_suffix repoUrl;
          parts = filter (\<lambda>p. p \<noteq> [])
                    (split_where (\<lambda>c. c = CHR ''/'' \<or> c = CHR '':'') cleanUrl)
      in if length parts \<ge> 2
         then (let repo = parts ! (length parts - 1);
                   owner = parts ! (length parts - 2)
               in owner @ ''/'' @ repo)
         else (case parts of [] \<Rightarrow> ''repo'' | p # ps \<Rightarrow> last parts))"

text \<open>\<open>branch.replace(/\//g, "-")\<close>\<close>

definition sanitize_branch :: "string \<Rightarrow> string" where
  "sanitize_branch branch = map (\<lambda>c. if c = CHR ''/'' then CHR ''-'' else c) branch"

text \<open>The branch is optional, and an empty branch name counts as none
  (\<open>if (branch)\<close>).\<close>

definition branch_given :: "string option \<Rightarrow> bool" where
  "branch_given branch = (case branch of None \<Rightarrow> False | Some b \<Rightarrow> b \<noteq> [])"

definition getRepoPath :: "string \<Rightarrow> string \<Rightarrow> string option \<Rightarrow> string" where
  "getRepoPath wd repoUrl branch =
     (let repoId = getRepoIdentifier repoUrl
      in if branch_given branch
         then (let safeBranch = sanitize_branch (the branch)
               in path_join [REPOS_DIR wd, repoId @ ''@'' @ safeBranch])
         else path_join [REPOS_DIR wd, repoId])"


section \<open>The directory tree of the list tool\<close>

text \<open>\<open>xs.sort()\<close> on strings: ascending by code units, a proper prefix first.\<close>

definition js_sort :: "string list \<Rightarrow> string list" where
  "js_sort xs = sort_key (\<lambda>s. map (of_char :: char \<Rightarrow> nat) s) xs"

text \<open>The directory of a file relative to the search directory, and the
  directories that the inner loop adds for it: \<open>.\<close> and every prefix of its parts.\<close>

definition dir_of_file :: "string \<Rightarrow> string \<Rightarrow> string \<Rightarrow> string" where
  "dir_of_file wd searchDir f = path_dirname (path_relative wd searchDir f)"

definition ancestor_dirs :: "string \<Rightarrow> string list" where
  "ancestor_dirs dir =
     (let parts = (if dir = ''.'' then [] else split_on CHR ''/'' dir)
      in map (\<lambda>i. if i = 0 then ''.'' else join_with ''/'' (take i parts))
           [0..<Suc (length parts)])"

text \<open>The set \<open>dirs\<close> (each directory once) and the map \<open>filesByDir\<close> (the base
  names of the files of a directory, in the order of the file list).\<close>

definition tree_dirs :: "string \<Rightarrow> string \<Rightarrow> string list \<Rightarrow> string list" where
  "tree_dirs wd searchDir fs =
     remdups (concat (map (\<lambda>f. ancestor_dirs (dir_of_file wd searchDir f)) fs))"

definition tree_filesByDir :: "string \<Rightarrow> string \<Rightarrow> string list \<Rightarrow> string \<Rightarrow> string list" where
  "tree_filesByDir wd searchDir fs dir =
     map path_basename (filter (\<lambda>f. dir_of_file wd searchDir f = dir) fs)"

text \<open>The recursion of \<open>renderDir\<close> goes from a directory to the directories of
  \<open>dirs\<close> whose \<open>dirname\<close> it is. It ends because \<open>dirname\<close> shortens every path
  it changes, \<open>.\<close> counting as the shortest.\<close>

definition dir_rank :: "string \<Rightarrow> nat" where
  "dir_rank d = (if d = ''.'' then 0 else Suc (length d))"

definition max_rank :: "string list \<Rightarrow> nat" where
  "max_rank dirs = foldr (\<lambda>d m. max (dir_rank d) m) dirs 0"

function renderDir :: "string list \<Rightarrow> (string \<Rightarrow> string list) \<Rightarrow> string \<Rightarrow> nat \<Rightarrow> string" where
  "renderDir dirs filesByDir dirPath depth =
     (let indent = concat (replicate depth ''  '');
          header = (if depth > 0 then indent @ path_basename dirPath @ ''/'' @ [CHR 0x0A] else []);
          childIndent = concat (replicate (depth + 1) ''  '');
          children = js_sort (filter (\<lambda>d. path_dirname d = dirPath \<and> d \<noteq> dirPath) dirs);
          dirFiles = js_sort (filesByDir dirPath)
      in header
         @ concat (map (\<lambda>child. renderDir dirs filesByDir child (depth + 1)) children)
         @ concat (map (\<lambda>f. childIndent @ f @ [CHR 0x0A]) dirFiles))"
  by pat_completeness auto
termination
proof -
  have shorter: "length (dropWhile P xs) < length xs" if "dropWhile P xs \<noteq> xs"
    for P :: "char \<Rightarrow> bool" and xs
  proof -
    have "takeWhile P xs @ dropWhile P xs = xs" by simp
    with that have "takeWhile P xs \<noteq> []" by (metis append_Nil)
    then have "0 < length (takeWhile P xs)" by simp
    moreover have "length (takeWhile P xs @ dropWhile P xs)
        = length (takeWhile P xs) + length (dropWhile P xs)"
      by (rule length_append)
    then have "length xs = length (takeWhile P xs) + length (dropWhile P xs)"
      by simp
    ultimately show ?thesis by linarith
  qed
  have rank: "dir_rank (path_dirname d) < dir_rank d" if ne: "path_dirname d \<noteq> d" for d
  proof (cases "d = []")
    case True
    then show ?thesis by (simp add: path_dirname_def dir_rank_def)
  next
    case False
    define B where "B = dropWhile (\<lambda>c. c = CHR ''/'') (rev (tl d))"
    define r where "r = dropWhile (\<lambda>c. c \<noteq> CHR ''/'') B"
    have lenB: "length B \<le> length d - 1"
      unfolding B_def using length_dropWhile_le [of "\<lambda>c. c = CHR ''/''" "rev (tl d)"] by simp
    have lenr: "length r \<le> length B"
      unfolding r_def by (rule length_dropWhile_le)
    have dn: "path_dirname d =
        (if r = [] then (if path_isAbsolute d then ''/'' else ''.'')
         else if path_isAbsolute d \<and> length r = 1 then ''//''
         else take (length r) d)"
      unfolding path_dirname_def Let_def r_def B_def using False by (simp only: if_False)
    show ?thesis
    proof (cases "r = []")
      case True
      show ?thesis
      proof (cases "path_isAbsolute d")
        case abs: True
        with True have dn': "path_dirname d = ''/''" by (simp add: dn)
        from abs obtain t where t: "d = CHR ''/'' # t"
          by (cases d) (auto simp: path_isAbsolute_def)
        with ne dn' have "t \<noteq> []" by auto
        with t have "1 < length d" by (cases t) auto
        moreover from t have "d \<noteq> ''.''" by simp
        ultimately show ?thesis by (simp add: dn' dir_rank_def)
      next
        case nabs: False
        with True have dn': "path_dirname d = ''.''" by (simp add: dn)
        with ne show ?thesis by (simp add: dir_rank_def)
      qed
    next
      case rne: False
      show ?thesis
      proof (cases "path_isAbsolute d \<and> length r = 1")
        case True
        with rne have dn': "path_dirname d = ''//''" by (simp add: dn)
        have hr: "hd r = CHR ''/''"
          using rne hd_dropWhile [of "\<lambda>c. c \<noteq> CHR ''/''" B] unfolding r_def by simp
        have Bne: "B \<noteq> []" using rne unfolding r_def by auto
        have hB: "hd B \<noteq> CHR ''/''"
          using Bne hd_dropWhile [of "\<lambda>c. c = CHR ''/''" "rev (tl d)"] unfolding B_def by simp
        from hr hB have "r \<noteq> B" by auto
        then have "length r < length B"
          unfolding r_def by (rule shorter)
        with True lenB have "2 < length d" by simp
        moreover from this have "d \<noteq> ''.''" by auto
        ultimately show ?thesis by (simp add: dn' dir_rank_def)
      next
        case nt: False
        with rne have dn': "path_dirname d = take (length r) d" by (auto simp: dn)
        have lt: "length r < length d"
          using lenr lenB False by (cases d) auto
        have "1 < length d"
          using rne lenr lenB by (cases r) auto
        then have "d \<noteq> ''.''" by auto
        with lt show ?thesis
          unfolding dn' by (simp add: dir_rank_def min_def)
      qed
    qed
  qed
  have le_max: "dir_rank d \<le> max_rank dirs" if "d \<in> set dirs" for d dirs
    using that by (induction dirs) (auto simp: max_rank_def)
  have decreases: "Suc (max_rank dirs) - dir_rank child < Suc (max_rank dirs) - dir_rank dirPath"
    if "child \<in> set dirs" and "path_dirname child = dirPath" and "child \<noteq> dirPath"
    for child dirs dirPath
  proof -
    have "dir_rank (path_dirname child) < dir_rank child"
      using that(2,3) by (intro rank) auto
    moreover have "dir_rank child \<le> max_rank dirs"
      using that(1) by (rule le_max)
    ultimately show ?thesis
      using that(2) by simp
  qed
  show ?thesis
    by (relation "measure (\<lambda>(dirs, filesByDir, dirPath, depth).
                    Suc (max_rank dirs) - dir_rank dirPath)")
      (auto simp: js_sort_def intro: decreases)
qed

declare renderDir.simps [simp del]


section \<open>External processes\<close>

text \<open>
  \<open>spawnSync\<close> either throws, or returns the exit status of the process
  (\<open>None\<close> is \<open>null\<close>: the program could not be started, or was killed) and
  its output. The tools test \<open>stdout\<close> for truthiness only, so the empty string also
  stands for \<open>null\<close>. \<open>mtime\<close> is \<open>fs.statSync(p).mtime.getTime()\<close>, with
  \<open>None\<close> when \<open>statSync\<close> throws.
\<close>

record spawn_result =
  status :: "int option"
  stdout :: string
  stderr :: string

datatype outcome = Threw string | Returned spawn_result

record proc_env =
  proc_cwd :: string
  spawnSync :: "string \<Rightarrow> string list \<Rightarrow> string option \<Rightarrow> outcome"
  mtime :: "string \<Rightarrow> int option"

definition IGNORE_PATTERNS :: "string list" where
  "IGNORE_PATTERNS =
     [''node_modules/'', ''__pycache__/'', ''.git/'', ''dist/'', ''build/'', ''target/'',
      ''vendor/'', ''bin/'', ''obj/'', ''.idea/'', ''.vscode/'', ''.zig-cache/'', ''zig-out'',
      ''.coverage'', ''coverage/'', ''tmp/'', ''temp/'', ''.cache/'', ''cache/'', ''logs/'',
      ''.venv/'', ''venv/'', ''env/'']"

text \<open>\<open>directory || process.cwd()\<close>\<close>

definition dir_or_cwd :: "proc_env \<Rightarrow> string option \<Rightarrow> string" where
  "dir_or_cwd env directory =
     (case directory of
        None \<Rightarrow> proc_cwd env
      | Some d \<Rightarrow> (if d = [] then proc_cwd env else d))"

text \<open>\<open>out.trim().split("\n").filter((f) => f.length > 0)\<close>\<close>

definition parse_lines :: "string \<Rightarrow> string list" where
  "parse_lines out = filter (\<lambda>f. f \<noteq> []) (split_on CHR 0x0A (trim out))"

definition mtime_or_0 :: "proc_env \<Rightarrow> string \<Rightarrow> int" where
  "mtime_or_0 env filePath = (case mtime env filePath of None \<Rightarrow> 0 | Some t \<Rightarrow> t)"


section \<open>The glob tool\<close>

record glob_result =
  files :: "string list"
  count :: nat
  truncated :: bool

text \<open>\<open>pattern.replace(/\*\*/g, "").replace(/\*/g, "*")\<close>: every \<open>**\<close> is
  removed; the second replacement changes nothing.\<close>

fun remove_double_star :: "string \<Rightarrow> string" where
  "remove_double_star (a # b # rest) =
     (if a = CHR ''*'' \<and> b = CHR ''*'' then remove_double_star rest
      else a # remove_double_star (b # rest))"
| "remove_double_star s = s"

definition rg_files_args :: "string \<Rightarrow> string list" where
  "rg_files_args pattern = [''--files'', ''--glob'', pattern]"

definition find_name_args :: "string \<Rightarrow> string \<Rightarrow> string list" where
  "find_name_args searchDir pattern =
     [searchDir, ''-name'', remove_double_star pattern, ''-type'', ''f'']"

text \<open>The inner \<open>try\<close>/\<open>catch\<close>: ripgrep first, \<open>find\<close> in the \<open>catch\<close>
  block. \<open>Inl\<close> is an exception that leaves the block.\<close>

definition glob_backend :: "proc_env \<Rightarrow> string \<Rightarrow> string \<Rightarrow> string + string list" where
  "glob_backend env pattern searchDir =
     (case spawnSync env ''rg'' (rg_files_args pattern) (Some searchDir) of
        Returned result \<Rightarrow>
          Inr (if status result = Some 0 \<and> stdout result \<noteq> []
               then map (\<lambda>f. path_resolve (proc_cwd env) [searchDir, f]) (parse_lines (stdout result))
               else [])
      | Threw e \<Rightarrow>
          (case spawnSync env ''find'' (find_name_args searchDir pattern) None of
             Returned result \<Rightarrow>
               Inr (if status result = Some 0 \<and> stdout result \<noteq> []
                    then parse_lines (stdout result)
                    else [])
           | Threw e' \<Rightarrow> Inl e'))"

text \<open>\<open>IGNORE_PATTERNS.some((ignore) => relative.includes(ignore.replace("/", "")))\<close>\<close>

definition is_ignored :: "string \<Rightarrow> bool" where
  "is_ignored relative =
     list_ex (\<lambda>ignore. str_includes relative (remove1 CHR ''/'' ignore)) IGNORE_PATTERNS"

text \<open>The files that pass the ignore filter.\<close>

definition glob_candidates :: "proc_env \<Rightarrow> string \<Rightarrow> string list \<Rightarrow> string list" where
  "glob_candidates env searchDir fs =
     filter (\<lambda>f. \<not> is_ignored (path_relative (proc_cwd env) searchDir f)) fs"

definition empty_glob :: glob_result where
  "empty_glob = \<lparr>files = [], count = 0, truncated = False\<rparr>"

definition globTool :: "proc_env \<Rightarrow> string \<Rightarrow> string option \<Rightarrow> glob_result" where
  "globTool env pattern directory =
     (let searchDir = dir_or_cwd env directory;
          limit = 100
      in case glob_backend env pattern searchDir of
           Inl error \<Rightarrow> empty_glob
         | Inr fs \<Rightarrow>
             (let fs' = glob_candidates env searchDir fs;
                  filesWithMtime = map (\<lambda>filePath. (filePath, mtime_or_0 env filePath))
                                     (js_slice 0 (limit * 2) fs');
                  sorted = sort_key (\<lambda>(p, m). - m) filesWithMtime;
                  trunc = (length filesWithMtime > nat limit);
                  finalFiles = map fst (js_slice 0 limit sorted)
              in \<lparr>files = finalFiles, count = length finalFiles, truncated = trunc\<rparr>))"


section \<open>The grep tool\<close>

record grep_match =
  match_file :: string
  match_line :: int
  match_content :: string

record grep_result =
  matches :: "grep_match list"
  grep_count :: nat
  grep_truncated :: bool

text \<open>\<open>if (include)\<close>: the filter is given and not empty.\<close>

definition include_given :: "string option \<Rightarrow> bool" where
  "include_given inc = (case inc of None \<Rightarrow> False | Some i \<Rightarrow> i \<noteq> [])"

definition rg_args :: "string \<Rightarrow> string option \<Rightarrow> string \<Rightarrow> string list" where
  "rg_args pattern inc searchDir =
     [''-n'', ''-H'', ''--field-match-separator=|'', ''--regexp'', pattern]
     @ (if include_given inc then [''--glob'', the inc] else [])
     @ concat (map (\<lambda>ignore. [''--glob'', ''!'' @ ignore @ ''*'']) IGNORE_PATTERNS)
     @ [searchDir]"

definition grep_args :: "string \<Rightarrow> string option \<Rightarrow> string \<Rightarrow> string list" where
  "grep_args pattern inc searchDir =
     [''-rn'', ''-E'', pattern]
     @ (if include_given inc then [''--include'', the inc] else [])
     @ [searchDir]"

text \<open>\<open>parseInt(s, 10) || 0\<close>: leading whitespace, a sign, then as many decimal
  digits as there are; no digit gives \<open>NaN\<close>, hence 0. The result is a double: an
  integer of more than 53 bits is rounded to the nearest one with 53 significant bits,
  a tie going to the even one (\<open>to_double\<close>; the doubles end below \<open>2 ^ 1024\<close>, beyond
  which the code has \<open>Infinity\<close>).\<close>

definition is_digit :: "char \<Rightarrow> bool" where
  "is_digit c = (c \<in> set ''0123456789'')"

definition digit_value :: "char \<Rightarrow> nat" where
  "digit_value c = length (takeWhile (\<lambda>d. d \<noteq> c) ''0123456789'')"

definition digits_value :: "string \<Rightarrow> nat" where
  "digits_value ds = foldl (\<lambda>acc d. 10 * acc + digit_value d) 0 ds"

fun bit_length :: "nat \<Rightarrow> nat" where
  "bit_length n = (if n = 0 then 0 else Suc (bit_length (n div 2)))"

declare bit_length.simps [simp del]

definition to_double :: "nat \<Rightarrow> nat" where
  "to_double n =
     (let e = bit_length n - 53;
          q = n div 2 ^ e;
          r = n mod 2 ^ e
      in if e = 0 then n
         else if 2 * r > 2 ^ e \<or> (2 * r = 2 ^ e \<and> odd q) then (q + 1) * 2 ^ e
         else q * 2 ^ e)"

definition parseInt_or_0 :: "string \<Rightarrow> int" where
  "parseInt_or_0 s =
     (let t = dropWhile is_space s;
          neg = (case t of [] \<Rightarrow> False | c # r \<Rightarrow> c = CHR ''-'');
          u = (case t of [] \<Rightarrow> [] | c # r \<Rightarrow> (if c = CHR ''-'' \<or> c = CHR ''+'' then r else t));
          ds = takeWhile is_digit u
      in if ds = [] then 0
         else if neg then - int (to_double (digits_value ds)) else int (to_double (digits_value ds)))"

text \<open>\<open>const [filePath, lineNum, ...rest] = line.split(sep)\<close>; a missing
  \<open>lineNum\<close> is \<open>undefined\<close>, which parses to \<open>NaN\<close>.\<close>

definition parse_match :: "char \<Rightarrow> string \<Rightarrow> grep_match" where
  "parse_match sep ln =
     (case split_on sep ln of
        [] \<Rightarrow> \<lparr>match_file = [], match_line = 0, match_content = []\<rparr>
      | filePath # parts \<Rightarrow>
          (case parts of
             [] \<Rightarrow> \<lparr>match_file = filePath, match_line = 0, match_content = []\<rparr>
           | lineNum # rest \<Rightarrow>
               \<lparr>match_file = filePath, match_line = parseInt_or_0 lineNum,
                match_content = take MAX_LINE_LENGTH (join_with [sep] rest)\<rparr>))"

definition empty_grep :: grep_result where
  "empty_grep = \<lparr>matches = [], grep_count = 0, grep_truncated = False\<rparr>"

text \<open>The fallback branch, from the outcome of \<open>grep\<close>.\<close>

definition grep_fallback :: "outcome \<Rightarrow> grep_result" where
  "grep_fallback grepOutcome =
     (case grepOutcome of
        Threw e \<Rightarrow> empty_grep
      | Returned grepResult \<Rightarrow>
          (if stdout grepResult = [] then empty_grep
           else
             (let lines = parse_lines (stdout grepResult);
                  ms = map (parse_match CHR '':'') (js_slice 0 100 lines)
              in \<lparr>matches = ms, grep_count = length ms,
                  grep_truncated = (length lines > 100)\<rparr>)))"

definition grepTool :: "proc_env \<Rightarrow> string \<Rightarrow> string option \<Rightarrow> string option \<Rightarrow> grep_result" where
  "grepTool env pattern directory inc =
     (let searchDir = dir_or_cwd env directory;
          limit = 100
      in case spawnSync env ''rg'' (rg_args pattern inc searchDir) None of
           Threw e \<Rightarrow> empty_grep
         | Returned result \<Rightarrow>
             (if status result = Some 1 then empty_grep
              else if status result \<noteq> Some 0
              then grep_fallback (spawnSync env ''grep'' (grep_args pattern inc searchDir) None)
              else
                (let lines = parse_lines (stdout result);
                     matchesWithMtime =
                       map (\<lambda>ln. (let m = parse_match CHR ''|'' ln in (m, mtime_or_0 env (match_file m))))
                         lines;
                     sorted = sort_key (\<lambda>(m, t). - t) matchesWithMtime;
                     trunc = (length matchesWithMtime > nat limit);
                     finalMatches = map fst (js_slice 0 limit sorted)
                 in \<lparr>matches = finalMatches, grep_count = length finalMatches,
                     grep_truncated = trunc\<rparr>)))"


section \<open>The list tool\<close>

record list_result =
  tree :: string
  fileCount :: nat
  list_truncated :: bool

definition find_files_args :: "string \<Rightarrow> string list \<Rightarrow> string list" where
  "find_files_args searchDir allIgnore =
     [searchDir, ''-type'', ''f'']
     @ concat (map (\<lambda>pattern. [''-not'', ''-path'', ''*/'' @ pattern @ ''*'']) allIgnore)"

definition listTool :: "proc_env \<Rightarrow> string option \<Rightarrow> string list \<Rightarrow> list_result" where
  "listTool env directory ignore =
     (let searchDir = path_resolve (proc_cwd env)
                        [proc_cwd env,
                         (case directory of None \<Rightarrow> ''.'' | Some d \<Rightarrow> if d = [] then ''.'' else d)];
          limit = 100;
          allIgnore = IGNORE_PATTERNS @ ignore
      in case spawnSync env ''find'' (find_files_args searchDir allIgnore) None of
           Threw error \<Rightarrow>
             \<lparr>tree = ''Error listing directory: '' @ error, fileCount = 0, list_truncated = False\<rparr>
         | Returned result \<Rightarrow>
             (let fs = (if status result = Some 0 \<and> stdout result \<noteq> []
                        then js_slice 0 limit (parse_lines (stdout result))
                        else []);
                  dirs = tree_dirs (proc_cwd env) searchDir fs;
                  filesByDir = tree_filesByDir (proc_cwd env) searchDir fs;
                  trunc = (length fs \<ge> nat limit)
              in \<lparr>tree = searchDir @ ''/'' @ [CHR 0x0A] @ renderDir dirs filesByDir ''.'' 0,
                  fileCount = length fs, list_truncated = trunc\<rparr>))"


section \<open>Concrete process environments\<close>



definition rg_missing_env :: proc_env where
  "rg_missing_env = \<lparr>proc_cwd = ''/w'',
     spawnSync = (\<lambda>cmd args wd.
        if cmd = ''rg'' then Returned \<lparr>status = None, stdout = [], stderr = []\<rparr>
        else if cmd = ''find''
        then Returned \<lparr>status = Some 0, stdout = ''/w/src/a.ts\<newline>'', stderr = []\<rparr>
        else if cmd = ''grep''
        then Returned \<lparr>status = Some 0,
                       stdout = ''/w/node_modules/x.js:3:foo\<newline>/w/a.js:7:foo: bar\<newline>'',
                       stderr = []\<rparr>
        else Threw ''spawn''),
     mtime = (\<lambda>p. None)\<rparr>"

text \<open>\<open>find100_env\<close>: \<open>find\<close> prints exactly 100 paths, \<open>/w/f1\<close> to
  \<open>/w/f100\<close>.\<close>

definition find100_stdout :: string where
  "find100_stdout = concat (map (\<lambda>i. ''/w/f'' @ show_nat i @ [CHR 0x0A]) [1..<101])"

definition find100_env :: proc_env where
  "find100_env = \<lparr>proc_cwd = ''/w'',
     spawnSync = (\<lambda>cmd args wd.
        Returned \<lparr>status = Some 0,
                  stdout = find100_stdout,
                  stderr = []\<rparr>),
     mtime = (\<lambda>p. None)\<rparr>"


section \<open>The clone step\<close>

text \<open>
  What the step reads of the outside world: which paths exist, and what
  \<open>git rev-parse --abbrev-ref HEAD\<close> answers in a directory. What it does to it:
  \<open>mkdirSync\<close>, \<open>rmSync\<close> and \<open>git clone\<close>, recorded in order.
\<close>

record world =
  existing :: "string set"
  rev_parse :: "string \<Rightarrow> outcome"

datatype effect = Mkdir string | Rm string | GitClone "string list"

definition getCurrentBranch :: "world \<Rightarrow> string \<Rightarrow> string option" where
  "getCurrentBranch w path =
     (case rev_parse w path of
        Threw e \<Rightarrow> None
      | Returned result \<Rightarrow> (if status result = Some 0 then Some (trim (stdout result)) else None))"

definition cloneExists :: "world \<Rightarrow> string \<Rightarrow> string option \<Rightarrow> bool" where
  "cloneExists w path br =
     (let gitDir = path_join [path, ''.git'']
      in if gitDir \<notin> existing w then False
         else if branch_given br
         then (let currentBranch = getCurrentBranch w path
               in if currentBranch \<noteq> br then False else True)
         else True)"

text \<open>\<open>fs.mkdirSync(p, {recursive: true})\<close>; the ancestors it may create as well
  are not read by the step. \<open>fs.rmSync(p, {recursive: true, force: true})\<close> removes
  the path and all below it.\<close>

definition mkdirSync :: "string \<Rightarrow> world \<Rightarrow> world" where
  "mkdirSync p w = w\<lparr>existing := insert p (existing w)\<rparr>"

definition rmSync :: "string \<Rightarrow> world \<Rightarrow> world" where
  "rmSync p w =
     w\<lparr>existing := Set.filter (\<lambda>q. q \<noteq> p \<and> \<not> startsWith q (p @ ''/'')) (existing w)\<rparr>"

record clone_output =
  repoPath :: string
  question :: string
  branch :: "string option"

definition clone_args :: "string \<Rightarrow> string \<Rightarrow> string option \<Rightarrow> string list" where
  "clone_args repoUrl path br =
     [''clone'', ''--depth'', ''1'']
     @ (if branch_given br then [''--branch'', the br] else [])
     @ [repoUrl, path]"

text \<open>
  The outcome of \<open>spawnSync("git", cloneArgs)\<close>: it threw, or it returned a result
  together with the text of \<open>result.error\<close> where \<open>spawnSync\<close> set one (the program
  could not be started, or ran out of time).
\<close>

datatype clone_outcome = CloneThrew string | CloneReturned spawn_result "string option"

text \<open>\<open>`Failed to clone repository: ${result.stderr || result.error}`\<close>\<close>

definition clone_failure :: "spawn_result \<Rightarrow> string option \<Rightarrow> js_error" where
  "clone_failure result err =
     Error (''Failed to clone repository: ''
            @ (if stderr result \<noteq> [] then stderr result
               else (case err of None \<Rightarrow> ''undefined'' | Some e \<Rightarrow> e)))"

text \<open>
  \<open>git\<close> is \<open>git clone\<close> as a process: from its arguments and the world it gives
  the outcome of \<open>spawnSync\<close> and the world afterwards. The step returns its result
  (an exception as \<open>Inl\<close>), the world it leaves, and what it did.
\<close>

definition cloneRepoStep ::
  "(string list \<Rightarrow> world \<Rightarrow> clone_outcome \<times> world) \<Rightarrow> string \<Rightarrow> world \<Rightarrow> string \<Rightarrow> string
    \<Rightarrow> string option \<Rightarrow> (js_error + clone_output) \<times> world \<times> effect list" where
  "cloneRepoStep git wd w repoUrl q br =
     (let (w1, e1) = (if REPOS_DIR wd \<in> existing w then (w, [])
                      else (mkdirSync (REPOS_DIR wd) w, [Mkdir (REPOS_DIR wd)]));
          path = getRepoPath wd repoUrl br
      in if cloneExists w1 path br
         then (Inr \<lparr>repoPath = path, question = q, branch = br\<rparr>, w1, e1)
         else
           (let (w2, e2) = (if path \<in> existing w1 then (rmSync path w1, [Rm path]) else (w1, []));
                cloneArgs = clone_args repoUrl path br;
                done = e1 @ e2 @ [GitClone cloneArgs]
            in case git cloneArgs w2 of
                 (CloneThrew e, w3) \<Rightarrow> (Inl (SystemError e), w3, done)
               | (CloneReturned result err, w3) \<Rightarrow>
                   (if status result \<noteq> Some 0
                    then (Inl (clone_failure result err), w3, done)
                    else (Inr \<lparr>repoPath = path, question = q, branch = br\<rparr>, w3, done))))"

text \<open>A cache holding a clone of \<open>o/n\<close> on branch \<open>main\<close>, and no network.\<close>

definition cached_world :: world where
  "cached_world =
     \<lparr>existing = {''/srv/app/.repos'', ''/srv/app/.repos/o/n@main'',
                  ''/srv/app/.repos/o/n@main/.git''},
      rev_parse = (\<lambda>p. Returned \<lparr>status = Some 0, stdout = ''main\<newline>'', stderr = []\<rparr>)\<rparr>"

definition offline_git :: "string list \<Rightarrow> world \<Rightarrow> clone_outcome \<times> world" where
  "offline_git args w =
     (CloneReturned \<lparr>status = Some 128, stdout = [], stderr = ''fatal: unable to access''\<rparr> None,
      w)"


section \<open>The documentation tools\<close>

text \<open>The docs folder: the first of \<open>docs\<close>, \<open>documentation\<close>, \<open>doc\<close> that
  exists under the repository.\<close>

definition getDocsPath :: "fs_env \<Rightarrow> string \<Rightarrow> string option" where
  "getDocsPath env repo =
     (case filter (existsSync env)
             [path_join [repo, ''docs''], path_join [repo, ''documentation''],
              path_join [repo, ''doc'']] of
        [] \<Rightarrow> None
      | p # ps \<Rightarrow> Some p)"

text \<open>
  A markdown file found under the docs folder: its path, its path relative to the docs
  folder, and the text that \<open>readFileSync(file.path, "utf-8")\<close> returns when the
  search reads it, which is the text of the file the directory walk found there.
\<close>

record doc_entry =
  doc_path :: string
  relativePath :: string
  doc_text :: string

text \<open>\<open>find_md wd dir base name n\<close> is what the entry \<open>name\<close> of the directory
  \<open>dir\<close>, with node \<open>n\<close>, adds to the list: the loop body of
  \<open>findMarkdownFiles\<close>.\<close>

fun find_md :: "string \<Rightarrow> string \<Rightarrow> string \<Rightarrow> string \<Rightarrow> node \<Rightarrow> doc_entry list" where
  "find_md wd dir base name (Dir sub) =
     (if \<not> startsWith name ''.'' \<and> name \<noteq> ''node_modules''
      then concat (map (\<lambda>e. find_md wd (path_join [dir, name]) base (fst e) (snd e)) sub)
      else [])"
| "find_md wd dir base name (File sz txt) =
     (if endsWith name ''.md'' \<or> endsWith name ''.mdx''
      then [\<lparr>doc_path = path_join [dir, name],
             relativePath = path_relative wd base (path_join [dir, name]),
             doc_text = txt\<rparr>]
      else [])"
| "find_md wd dir base name (Special sz txt) = []"
| "find_md wd dir base name (Link n) = []"
| "find_md wd dir base name Dangling = []"

definition findMarkdownFiles :: "fs_env \<Rightarrow> string \<Rightarrow> string \<Rightarrow> js_error + doc_entry list" where
  "findMarkdownFiles env dir base =
     (if \<not> existsSync env dir then Inr []
      else (case readdirSync env dir of
              Inl e \<Rightarrow> Inl e
            | Inr entries \<Rightarrow>
                Inr (concat (map (\<lambda>e. find_md (cwd env) dir base (fst e) (snd e)) entries))))"

text \<open>\<open>s.split(/\s+/)\<close>: the pieces between maximal runs of whitespace; a run at
  the start or at the end leaves an empty piece there.\<close>

function split_ws_aux :: "string \<Rightarrow> string \<Rightarrow> string list" where
  "split_ws_aux acc [] = [rev acc]"
| "split_ws_aux acc (c # cs) =
     (if is_space c then rev acc # split_ws_aux [] (dropWhile is_space cs)
      else split_ws_aux (c # acc) cs)"
  by pat_completeness auto
termination
  by (relation "measure (\<lambda>(acc, s). length s)") (auto simp: length_dropWhile_le less_Suc_eq_le)

definition split_ws :: "string \<Rightarrow> string list" where
  "split_ws s = split_ws_aux [] s"

definition searchTerms :: "string \<Rightarrow> string list" where
  "searchTerms query = split_ws (toLowerCase query)"

record doc_match =
  doc_line :: nat
  doc_content :: string

record doc_result =
  doc_file :: string
  doc_matches :: "doc_match list"
  score :: nat

record search_docs_result =
  results :: "doc_result list"
  totalMatches :: nat

text \<open>\<open>searchTerms.some((term) => lineLower.includes(term))\<close>\<close>

definition line_matches :: "string list \<Rightarrow> string \<Rightarrow> bool" where
  "line_matches terms ln = list_ex (\<lambda>term. str_includes (toLowerCase ln) term) terms"

text \<open>The loop over the lines of one file, from index \<open>i\<close> on.\<close>

fun scan_lines :: "string list \<Rightarrow> nat \<Rightarrow> string list \<Rightarrow> doc_match list" where
  "scan_lines terms i [] = []"
| "scan_lines terms i (ln # rest) =
     (if line_matches terms ln
      then \<lparr>doc_line = i + 1, doc_content = js_slice 0 200 ln\<rparr> # scan_lines terms (i + 1) rest
      else scan_lines terms (i + 1) rest)"

text \<open>The body of the loop over the files: what one file adds to \<open>results\<close>.\<close>

definition scan_file :: "string list \<Rightarrow> doc_entry \<Rightarrow> doc_result list" where
  "scan_file terms f =
     (let ms = scan_lines terms 0 (split_on CHR 0x0A (doc_text f))
      in if length ms > 0
         then [\<lparr>doc_file = relativePath f, doc_matches = js_slice 0 5 ms, score = length ms\<rparr>]
         else [])"

definition scan_files :: "string list \<Rightarrow> doc_entry list \<Rightarrow> doc_result list" where
  "scan_files terms fs = concat (map (scan_file terms) fs)"

text \<open>\<open>results.sort((a, b) => b.score - a.score)\<close>; the sort is stable.\<close>

definition rank :: "doc_result list \<Rightarrow> doc_result list" where
  "rank rs = sort_key (\<lambda>r. - int (score r)) rs"

definition maxResults_of :: "int option \<Rightarrow> int" where
  "maxResults_of m = (case m of None \<Rightarrow> 10 | Some v \<Rightarrow> v)"

definition searchDocsTool ::
  "fs_env \<Rightarrow> string \<Rightarrow> string \<Rightarrow> int option \<Rightarrow> js_error + search_docs_result" where
  "searchDocsTool env repo query maxResults0 =
     (let maxResults = maxResults_of maxResults0
      in case getDocsPath env repo of
           None \<Rightarrow> Inr \<lparr>results = [], totalMatches = 0\<rparr>
         | Some docsPath \<Rightarrow>
             (case findMarkdownFiles env docsPath docsPath of
                Inl e \<Rightarrow> Inl e
              | Inr fs \<Rightarrow>
                  (let rs = scan_files (searchTerms query) fs;
                       topResults = js_slice 0 maxResults (rank rs);
                       total = foldl (\<lambda>sum r. sum + score r) 0 rs
                   in Inr \<lparr>results = topResults, totalMatches = total\<rparr>)))"

text \<open>
  In the words of the specification. A line matches when, lower-cased, it contains some
  search term. The matches of a text are its matching lines in order, each with its
  1-based number and its first 200 characters; the matching-line count is their number.
  The matching files are the doc files with at least one matching line, in the order of
  the file list, each with its relative path, its first 5 matches and its count.
\<close>

definition contains_term :: "string list \<Rightarrow> string \<Rightarrow> bool" where
  "contains_term terms ln = (\<exists>t\<in>set terms. \<exists>a b. toLowerCase ln = a @ t @ b)"

definition matching_lines :: "string list \<Rightarrow> string \<Rightarrow> doc_match list" where
  "matching_lines terms txt =
     map (\<lambda>(i, ln). \<lparr>doc_line = i + 1, doc_content = take 200 ln\<rparr>)
       (filter (\<lambda>(i, ln). contains_term terms ln) (enumerate 0 (split_on CHR 0x0A txt)))"

definition matching_line_count :: "string list \<Rightarrow> string \<Rightarrow> nat" where
  "matching_line_count terms txt =
     length (filter (contains_term terms) (split_on CHR 0x0A txt))"

definition matching_files :: "string list \<Rightarrow> doc_entry list \<Rightarrow> doc_result list" where
  "matching_files terms fs =
     map (\<lambda>f. \<lparr>doc_file = relativePath f,
                  doc_matches = take 5 (matching_lines terms (doc_text f)),
                  score = matching_line_count terms (doc_text f)\<rparr>)
       (filter (\<lambda>f. 0 < matching_line_count terms (doc_text f)) fs)"

text \<open>A repository with two documents: \<open>guide.md\<close> has three lines that mention
  \<open>agent\<close> or \<open>memory\<close>, \<open>notes.md\<close> has one; \<open>.hidden\<close> and the text file are
  skipped.\<close>

definition docs_fs :: fs_env where
  "docs_fs =
     \<lparr>cwd = ''/w'',
      root = Dir [(''repo'', Dir [(''docs'', Dir
        [(''notes.md'', File 30 ''Intro\<newline>uses Memory here\<newline>end''),
         (''guide.md'', File 60 ''Agent setup\<newline>the agent runs\<newline>plain\<newline>agent memory''),
         (''.hidden'', Dir [(''x.md'', File 5 ''agent'')]),
         (''todo.txt'', File 5 ''agent'')])])]\<rparr>"

text \<open>A repository with three documents: \<open>long.md\<close> has seven lines that mention
  \<open>agent\<close>, the second of them 306 characters long; \<open>short.md\<close> has one such
  line and \<open>more.md\<close> two. A linked document and a dangling link lie beside them.\<close>

definition long_text :: string where
  "long_text = ''agent''
     @ [CHR 0x0A] @ ''agent '' @ replicate 300 CHR ''x''
     @ concat (replicate 5 ([CHR 0x0A] @ ''Agent''))"

definition caps_fs :: fs_env where
  "caps_fs =
     \<lparr>cwd = ''/w'',
      root = Dir [(''repo'', Dir [(''docs'', Dir
        [(''short.md'', File 9 ''the agent''),
         (''long.md'', File 342 long_text),
         (''more.md'', File 14 ''agent\<newline>no\<newline>AGENT''),
         (''linked.md'', Link (File 5 ''agent'')),
         (''gone.md'', Dangling)])])]\<rparr>"


text \<open>The doc files of \<open>caps_fs\<close>, as the directory walk finds them.\<close>

definition caps_files :: "doc_entry list" where
  "caps_files =
     [\<lparr>doc_path = ''/repo/docs/short.md'', relativePath = ''short.md'', doc_text = ''the agent''\<rparr>,
      \<lparr>doc_path = ''/repo/docs/long.md'', relativePath = ''long.md'', doc_text = long_text\<rparr>,
      \<lparr>doc_path = ''/repo/docs/more.md'', relativePath = ''more.md'',
        doc_text = ''agent\<newline>no\<newline>AGENT''\<rparr>]"

text \<open>What the scan of these files for \<open>agent\<close> gives, written out.\<close>

definition caps_scanned :: "doc_result list" where
  "caps_scanned =
     [\<lparr>doc_file = ''short.md'',
       doc_matches = [\<lparr>doc_line = 1, doc_content = ''the agent''\<rparr>],
       score = 1\<rparr>,
      \<lparr>doc_file = ''long.md'',
       doc_matches = [\<lparr>doc_line = 1, doc_content = ''agent''\<rparr>,
                      \<lparr>doc_line = 2, doc_content = ''agent '' @ replicate 194 CHR ''x''\<rparr>,
                      \<lparr>doc_line = 3, doc_content = ''Agent''\<rparr>,
                      \<lparr>doc_line = 4, doc_content = ''Agent''\<rparr>,
                      \<lparr>doc_line = 5, doc_content = ''Agent''\<rparr>],
       score = 7\<rparr>,
      \<lparr>doc_file = ''more.md'',
       doc_matches = [\<lparr>doc_line = 1, doc_content = ''agent''\<rparr>,
                      \<lparr>doc_line = 3, doc_content = ''AGENT''\<rparr>],
       score = 2\<rparr>]"


section \<open>Properties of the string and array helpers\<close>

lemma split_where_not_Nil: "split_where P s \<noteq> []"
  by (induction s) (auto split: list.splits)

lemma split_where_none: "\<forall>x\<in>set s. \<not> P x \<Longrightarrow> split_where P s = [s]"
  by (induction s) (auto split: list.splits)

lemma split_on_none: "c \<notin> set s \<Longrightarrow> split_on c s = [s]"
  unfolding split_on_def by (rule split_where_none) auto

lemma js_slice_0: "0 \<le> lim \<Longrightarrow> js_slice 0 lim xs = take (nat lim) xs"
  by (simp add: js_slice_def clamp_index_def min_def)

lemma show_nat_10: "show_nat 10 = ''10''"
  by (simp add: show_nat.simps digit_char_def)

lemma split_where_append_no_sep:
  "\<forall>x\<in>set t. \<not> P x \<Longrightarrow>
   split_where P (s @ t) = butlast (split_where P s) @ [last (split_where P s) @ t]"
proof (induction s)
  case Nil
  then show ?case by (simp add: split_where_none)
next
  case (Cons x s)
  then show ?case
    using split_where_not_Nil [of P s]
    by (cases "split_where P s") (auto split: list.splits)
qed

lemma normalize_segs_snoc:
  "l \<noteq> [] \<Longrightarrow> l \<noteq> ''.'' \<Longrightarrow> l \<noteq> ''..'' \<Longrightarrow>
   normalize_segs a (xs @ [l]) = normalize_segs a xs @ [l]"
  by (simp add: normalize_segs_def normalize_step_def)

lemma join_with_snoc_append:
  "join_with sep (xs @ [l @ t]) = join_with sep (xs @ [l]) @ t"
  by (induction sep xs rule: join_with.induct) auto

lemma join_with_snoc_not_Nil: "l \<noteq> [] \<Longrightarrow> join_with sep (xs @ [l]) \<noteq> []"
  by (induction sep xs rule: join_with.induct) auto

lemma path_normalize_at_suffix:
  assumes "CHR ''/'' \<notin> set t"
  shows "path_normalize (b @ ''@'' @ t) = path_normalize (b @ ''@'') @ t"
proof -
  define X where "X = butlast (split_on CHR ''/'' b)"
  define l where "l = last (split_on CHR ''/'' b) @ ''@''"
  have sp1: "split_on CHR ''/'' (b @ ''@'') = X @ [l]"
    unfolding split_on_def X_def l_def by (rule split_where_append_no_sep) simp
  have "split_on CHR ''/'' (b @ (''@'' @ t)) = X @ [last (split_on CHR ''/'' b) @ (''@'' @ t)]"
    unfolding split_on_def X_def using assms by (intro split_where_append_no_sep) auto
  then have sp2: "split_on CHR ''/'' (b @ ''@'' @ t) = X @ [l @ t]"
    by (simp add: l_def)
  have l: "l \<noteq> []" "l \<noteq> ''.''" "l \<noteq> ''..''"
    by (auto simp: l_def append_eq_Cons_conv Cons_eq_append_conv)
  have lt: "l @ t \<noteq> []" "l @ t \<noteq> ''.''" "l @ t \<noteq> ''..''"
    by (auto simp: l_def append_eq_Cons_conv Cons_eq_append_conv)
  have abs: "path_isAbsolute (b @ ''@'' @ t) = path_isAbsolute (b @ ''@'')"
    by (cases b) (simp_all add: path_isAbsolute_def)
  have tr1: "last (b @ ''@'') \<noteq> CHR ''/''" by simp
  have tr2: "last (b @ ''@'' @ t) \<noteq> CHR ''/''"
  proof (cases "t = []")
    case True
    then show ?thesis by simp
  next
    case False
    then have "last t \<in> set t" by simp
    with assms have "last t \<noteq> CHR ''/''" by metis
    with False show ?thesis by (simp add: last_append)
  qed
  have ne1: "b @ ''@'' @ t \<noteq> []" and ne2: "b @ ''@'' \<noteq> []"
    by simp_all
  have j: "join_with ''/'' (normalize_segs a X @ [l @ t])
             = join_with ''/'' (normalize_segs a X @ [l]) @ t" for a
    by (rule join_with_snoc_append)
  have jn: "join_with ''/'' (normalize_segs a X @ [l]) \<noteq> []" for a
    by (rule join_with_snoc_not_Nil) (rule l(1))
  show ?thesis
    unfolding path_normalize_def Let_def abs sp1 sp2
      normalize_segs_snoc [OF l] normalize_segs_snoc [OF lt] j
    using tr1 tr2 ne1 ne2 jn by simp
qed

lemma path_normalize_not_Nil: "path_normalize p \<noteq> []"
  by (simp add: path_normalize_def Let_def)

lemma path_join_not_Nil: "path_join ps \<noteq> []"
  by (simp add: path_join_def Let_def path_normalize_not_Nil)

lemma set_js_slice: "set (js_slice a b xs) \<subseteq> set xs"
  by (auto simp: js_slice_def Let_def dest: in_set_takeD in_set_dropD)

lemma sorted_wrt_js_slice: "sorted_wrt R xs \<Longrightarrow> sorted_wrt R (js_slice a b xs)"
  by (simp add: js_slice_def Let_def sorted_wrt_take sorted_wrt_drop)



section \<open>The read tool: windows, the size ceiling, absent files\<close>

lemma selectedLines_all:
  "length (split_on CHR 0x0A txt) \<le> 2000 \<Longrightarrow>
   selectedLines txt 0 2000 = map truncate_line (split_on CHR 0x0A txt)"
  by (simp add: selectedLines_def js_slice_0)

lemma read_file_hasMore:
  "hasMore (read_file txt offset limit) =
     (int (totalLines (read_file txt offset limit))
        > offset + int (length (selectedLines txt offset limit)))"
  by (simp add: read_file_def Let_def)

lemma read_file_small:
  assumes "length (split_on CHR 0x0A txt) \<le> 2000"
  shows "read_file txt 0 2000 =
     \<lparr>content = ''<file>'' @ [CHR 0x0A]
         @ join_with [CHR 0x0A] (number_lines 0 (map truncate_line (split_on CHR 0x0A txt)))
         @ [CHR 0x0A, CHR 0x0A] @ ''(End of file - total ''
         @ show_nat (length (split_on CHR 0x0A txt)) @ '' lines)'' @ [CHR 0x0A] @ ''</file>'',
      totalLines = length (split_on CHR 0x0A txt),
      hasMore = False\<rparr>"
  using assms by (simp add: read_file_def Let_def selectedLines_all)

lemma readTool_File:
  "fs_lookup env (resolved_path env filePath) = Some (File sz txt) \<Longrightarrow> sz \<le> MAX_FILE_SIZE \<Longrightarrow>
   readTool env filePath off lim = Inr (read_file txt (offset_of off) (limit_of lim))"
  by (simp add: readTool_def read_checked_def Let_def)

lemma readTool_too_large:
  "fs_lookup env (resolved_path env filePath) = Some (File sz txt) \<Longrightarrow> MAX_FILE_SIZE < sz \<Longrightarrow>
   readTool env filePath off lim =
     Inl (Error (''File is too large ('' @ show_nat ((sz + 524288) div 1048576)
                 @ ''MB). Max size: 10MB''))"
  by (simp add: readTool_def read_checked_def Let_def)

lemma small_fs_lookup:
  "fs_lookup small_fs (resolved_path small_fs ''a.txt'') = Some (File 5 ''ab\<newline>cd'')"
  by (simp add: small_fs_def fs_lookup_def resolved_path_def path_isAbsolute_def path_resolve_def
      resolve_segs_def normalize_segs_def normalize_step_def split_on_def)

lemma big_fs_lookup:
  "fs_lookup big_fs (resolved_path big_fs ''/big.txt'')
     = Some (File 10485761 (replicate 10485761 CHR ''x''))"
  by (simp add: big_fs_def fs_lookup_def resolved_path_def path_isAbsolute_def split_on_def)

text \<open>
  Claim C1, as the code has it. Let the path name a regular file whose size is within
  the 10 MB ceiling, and let its text split at newlines into \<open>N\<close> lines. Then the
  read returns a result with \<open>totalLines = N\<close>, and \<open>hasMore\<close> holds exactly when
  \<open>totalLines > offset + (number of lines returned)\<close>, for every \<open>offset\<close> and
  \<open>limit\<close>. If moreover \<open>N \<le> 2000\<close> and the call uses offset 0 and limit 2000
  (given or by default), all \<open>N\<close> lines are returned, each numbered and cut at 2000
  characters, with \<open>hasMore = false\<close>.
\<close>

theorem readTool_window:
  assumes "fs_lookup env (resolved_path env filePath) = Some (File sz txt)"
    and "sz \<le> MAX_FILE_SIZE"
  shows "(\<exists>r. readTool env filePath off lim = Inr r
            \<and> totalLines r = length (split_on CHR 0x0A txt)
            \<and> hasMore r = (int (totalLines r)
                 > offset_of off + int (length (selectedLines txt (offset_of off) (limit_of lim)))))
       \<and> (length (split_on CHR 0x0A txt) \<le> 2000 \<longrightarrow>
            (off = None \<or> off = Some 0) \<longrightarrow> (lim = None \<or> lim = Some 2000) \<longrightarrow>
            selectedLines txt (offset_of off) (limit_of lim) = map truncate_line (split_on CHR 0x0A txt)
            \<and> readTool env filePath off lim = Inr
               \<lparr>content = ''<file>'' @ [CHR 0x0A]
                   @ join_with [CHR 0x0A] (number_lines 0 (map truncate_line (split_on CHR 0x0A txt)))
                   @ [CHR 0x0A, CHR 0x0A] @ ''(End of file - total ''
                   @ show_nat (length (split_on CHR 0x0A txt)) @ '' lines)'' @ [CHR 0x0A] @ ''</file>'',
                totalLines = length (split_on CHR 0x0A txt),
                hasMore = False\<rparr>)"
proof (intro conjI impI)
  show "\<exists>r. readTool env filePath off lim = Inr r
            \<and> totalLines r = length (split_on CHR 0x0A txt)
            \<and> hasMore r = (int (totalLines r)
                 > offset_of off + int (length (selectedLines txt (offset_of off) (limit_of lim))))"
    using readTool_File [OF assms] read_file_hasMore
    by (simp add: read_file_def Let_def)
next
  assume small: "length (split_on CHR 0x0A txt) \<le> 2000"
    and o: "off = None \<or> off = Some 0" and l: "lim = None \<or> lim = Some 2000"
  from o have o0: "offset_of off = 0" by (auto simp: offset_of_def)
  from l have l0: "limit_of lim = 2000" by (auto simp: limit_of_def DEFAULT_READ_LIMIT_def)
  show "selectedLines txt (offset_of off) (limit_of lim) = map truncate_line (split_on CHR 0x0A txt)"
    using small by (simp add: o0 l0 selectedLines_all)
  show "readTool env filePath off lim = Inr
               \<lparr>content = ''<file>'' @ [CHR 0x0A]
                   @ join_with [CHR 0x0A] (number_lines 0 (map truncate_line (split_on CHR 0x0A txt)))
                   @ [CHR 0x0A, CHR 0x0A] @ ''(End of file - total ''
                   @ show_nat (length (split_on CHR 0x0A txt)) @ '' lines)'' @ [CHR 0x0A] @ ''</file>'',
                totalLines = length (split_on CHR 0x0A txt),
                hasMore = False\<rparr>"
    using readTool_File [OF assms, of off lim] read_file_small [OF small] by (simp add: o0 l0)
qed

text \<open>The two-line file \<open>/w/a.txt\<close>, read with the default window.\<close>

theorem readTool_window_witness:
  "\<exists>r. readTool small_fs ''a.txt'' None None = Inr r \<and> totalLines r = 2 \<and> hasMore r = False
       \<and> selectedLines ''ab\<newline>cd'' 0 2000 = [''ab'', ''cd'']"
proof -
  have sz: "(5::nat) \<le> MAX_FILE_SIZE"
    by (simp add: MAX_FILE_SIZE_def)
  have n: "split_on CHR 0x0A ''ab\<newline>cd'' = [''ab'', ''cd'']"
    by (simp add: split_on_def)
  from readTool_window [OF small_fs_lookup sz, of None None]
  show ?thesis
    by (simp add: n offset_of_def limit_of_def DEFAULT_READ_LIMIT_def truncate_line_def
        MAX_LINE_LENGTH_def)
qed

text \<open>
  Claim C1 as stated fails on a file above the size ceiling: a file of one line
  (\<open>N = 1 \<le> 2000\<close>) of 10485761 characters is refused, and no line is returned.
\<close>

theorem readTool_small_file_counterexample:
  "length (split_on CHR 0x0A (replicate 10485761 CHR ''x'')) = 1
   \<and> readTool big_fs ''/big.txt'' (Some 0) (Some 2000)
       = Inl (Error ''File is too large (10MB). Max size: 10MB'')"
  using readTool_too_large [OF big_fs_lookup, of "Some 0" "Some 2000"]
  by (simp add: split_on_none MAX_FILE_SIZE_def show_nat_10)

text \<open>An absent file: what the read throws, by what its parent path is.\<close>

lemma length_suggest: "length (suggest dir base entries) \<le> 3"
  by (simp add: suggest_def js_slice_0)

lemma target_not_Link: "target n \<noteq> Link m"
  by (induction n) auto

lemma walk_resolved:
  "walk n anc segs = Some t \<Longrightarrow> t \<noteq> Dangling \<and> (\<forall>m. t \<noteq> Link m)"
proof (induction segs arbitrary: n anc)
  case Nil
  then show ?case
    using target_not_Link [of n] by (auto split: node.splits)
next
  case (Cons s ss)
  then show ?case
    by (auto split: node.splits if_splits list.splits option.splits)
qed

lemma fs_lookup_resolved:
  "fs_lookup env p = Some t \<Longrightarrow> t \<noteq> Dangling \<and> (\<forall>m. t \<noteq> Link m)"
  by (auto simp: fs_lookup_def dest: walk_resolved split: if_splits)

lemma readTool_absent:
  assumes "fs_lookup env (resolved_path env filePath) = None"
  shows "readTool env filePath off lim =
     (case fs_lookup env (path_dirname (resolved_path env filePath)) of
        None \<Rightarrow> Inl (not_found (resolved_path env filePath) [])
      | Some (Dir es) \<Rightarrow>
          Inl (not_found (resolved_path env filePath)
                 (suggest (path_dirname (resolved_path env filePath))
                    (toLowerCase (path_basename (resolved_path env filePath))) (map fst es)))
      | Some n \<Rightarrow> Inl (SystemError ''ENOTDIR''))"
  using assms
  by (simp add: readTool_def Let_def existsSync_def readdirSync_def
      split: option.splits node.splits)

text \<open>
  Claim C8 at the path \<open>/w/a.txt/x\<close>, where \<open>/w/a.txt\<close> is a regular file: the
  requested file is absent, its parent path exists, listing the parent throws, and
  that error, not a \<open>File not found\<close> error, leaves the read.
\<close>

theorem readTool_absent_under_file:
  "fs_lookup small_fs (resolved_path small_fs ''/w/a.txt/x'') = None
   \<and> existsSync small_fs (path_dirname (resolved_path small_fs ''/w/a.txt/x''))
   \<and> readTool small_fs ''/w/a.txt/x'' None None = Inl (SystemError ''ENOTDIR'')"
  by (simp add: readTool_def Let_def existsSync_def readdirSync_def small_fs_def fs_lookup_def
      resolved_path_def path_isAbsolute_def path_dirname_def split_on_def)


section \<open>The local path of a clone\<close>

lemma sanitize_branch_no_slash: "CHR ''/'' \<notin> set (sanitize_branch b)"
  by (auto simp: sanitize_branch_def)

lemma getRepoPath_branch:
  assumes "b \<noteq> []"
  shows "getRepoPath wd url (Some b) =
     path_normalize (REPOS_DIR wd @ ''/'' @ getRepoIdentifier url @ ''@'') @ sanitize_branch b"
proof -
  have r: "REPOS_DIR wd \<noteq> []"
    by (simp add: REPOS_DIR_def path_join_not_Nil)
  have "getRepoPath wd url (Some b) =
      path_normalize ((REPOS_DIR wd @ ''/'' @ getRepoIdentifier url) @ ''@'' @ sanitize_branch b)"
    using assms r by (simp add: getRepoPath_def branch_given_def path_join_def Let_def)
  also have "\<dots> = path_normalize ((REPOS_DIR wd @ ''/'' @ getRepoIdentifier url) @ ''@'')
       @ sanitize_branch b"
    by (rule path_normalize_at_suffix) (rule sanitize_branch_no_slash)
  finally show ?thesis by simp
qed

text \<open>
  Claim C2, as the code has it. The local path is a function of the working directory,
  the URL and the optional branch: \<open>root/owner/name\<close> without a branch and
  \<open>root/owner/name@branch\<close> with one, every \<open>/\<close> of the branch replaced by
  \<open>-\<close>. For two requested (non-empty) branch names of one \<open>owner/name\<close> the
  paths are equal exactly when the branch names are equal after that replacement; in
  particular two distinct branch names without \<open>/\<close> get distinct paths.
\<close>

theorem getRepoPath_branches:
  assumes "getRepoIdentifier url1 = getRepoIdentifier url2"
    and "b1 \<noteq> []" and "b2 \<noteq> []"
  shows "(getRepoPath wd url1 (Some b1) = getRepoPath wd url2 (Some b2))
           = (sanitize_branch b1 = sanitize_branch b2)
       \<and> (CHR ''/'' \<notin> set b1 \<longrightarrow> CHR ''/'' \<notin> set b2 \<longrightarrow> b1 \<noteq> b2 \<longrightarrow>
            getRepoPath wd url1 (Some b1) \<noteq> getRepoPath wd url2 (Some b2))
       \<and> getRepoPath wd url1 (Some b1)
           = path_join [REPOS_DIR wd, getRepoIdentifier url1 @ ''@'' @ sanitize_branch b1]
       \<and> getRepoPath wd url1 None = path_join [REPOS_DIR wd, getRepoIdentifier url1]"
proof -
  have eq: "(getRepoPath wd url1 (Some b1) = getRepoPath wd url2 (Some b2))
           = (sanitize_branch b1 = sanitize_branch b2)"
    using assms by (simp add: getRepoPath_branch)
  have id: "CHR ''/'' \<notin> set b \<Longrightarrow> sanitize_branch b = b" for b
    by (induction b) (auto simp: sanitize_branch_def)
  show ?thesis
    using eq assms(2) by (auto simp: id getRepoPath_def branch_given_def)
qed

text \<open>Two URLs of the repository \<open>o/n\<close>, branches \<open>main\<close> and \<open>dev\<close>.\<close>

theorem getRepoPath_branches_witness:
  "getRepoPath ''/srv/app/src/mastra'' ''https://github.com/o/n'' (Some ''main'')
     \<noteq> getRepoPath ''/srv/app/src/mastra'' ''git@github.com:o/n.git'' (Some ''dev'')"
proof -
  have "getRepoIdentifier ''https://github.com/o/n'' = getRepoIdentifier ''git@github.com:o/n.git''"
    by (simp add: getRepoIdentifier_def strip_git_suffix_def endsWith_def)
  from getRepoPath_branches [OF this, of "''main''" "''dev''" "''/srv/app/src/mastra''",
      THEN conjunct2, THEN conjunct1]
  have "CHR ''/'' \<notin> set ''main'' \<longrightarrow> CHR ''/'' \<notin> set ''dev'' \<longrightarrow> ''main'' \<noteq> ''dev'' \<longrightarrow>
    getRepoPath ''/srv/app/src/mastra'' ''https://github.com/o/n'' (Some ''main'')
     \<noteq> getRepoPath ''/srv/app/src/mastra'' ''git@github.com:o/n.git'' (Some ''dev'')"
    by simp
  then show ?thesis by simp
qed

text \<open>
  Claim C2 as stated fails: the distinct branch names \<open>feature/x\<close> and
  \<open>feature-x\<close> of one repository get the same local path.
\<close>

theorem getRepoPath_branch_counterexample:
  "''feature/x'' \<noteq> ''feature-x''
   \<and> getRepoPath ''/srv/app/src/mastra'' ''https://github.com/o/n'' (Some ''feature/x'')
     = getRepoPath ''/srv/app/src/mastra'' ''https://github.com/o/n'' (Some ''feature-x'')"
  by (simp add: getRepoPath_branch sanitize_branch_def)


section \<open>The glob tool: order, truncation, failures\<close>


lemma globTool_Inr:
  "glob_backend env pattern (dir_or_cwd env directory) = Inr fs \<Longrightarrow>
   globTool env pattern directory =
     \<lparr>files = map fst (take 100 (sort_key (\<lambda>(p, m). - m)
                 (map (\<lambda>filePath. (filePath, mtime_or_0 env filePath))
                    (take 200 (glob_candidates env (dir_or_cwd env directory) fs))))),
      count = min 100 (length (glob_candidates env (dir_or_cwd env directory) fs)),
      truncated = (100 < length (glob_candidates env (dir_or_cwd env directory) fs))\<rparr>"
  by (auto simp add: globTool_def Let_def js_slice_0)

lemma globTool_count_truncated:
  assumes "glob_backend env pattern (dir_or_cwd env directory) = Inr fs"
  shows "count (globTool env pattern directory) = length (files (globTool env pattern directory))
       \<and> length (files (globTool env pattern directory))
           = min 100 (length (glob_candidates env (dir_or_cwd env directory) fs))
       \<and> truncated (globTool env pattern directory)
           = (length (files (globTool env pattern directory))
                < length (glob_candidates env (dir_or_cwd env directory) fs))"
  by (auto simp add: globTool_Inr [OF assms])



lemma glob_backend_rg_returned:
  "spawnSync env ''rg'' (rg_files_args pattern) (Some searchDir) = Returned result \<Longrightarrow>
   status result \<noteq> Some 0 \<Longrightarrow> glob_backend env pattern searchDir = Inr []"
  by (simp add: glob_backend_def)

lemma globTool_rg_not_ok:
  assumes "spawnSync env ''rg'' (rg_files_args pattern) (Some (dir_or_cwd env directory)) = Returned result"
    and "status result \<noteq> Some 0"
  shows "globTool env pattern directory = empty_glob"
  using glob_backend_rg_returned [OF assms]
  by (simp add: globTool_Inr glob_candidates_def empty_glob_def)





text \<open>
  Claim C4 where ripgrep is not installed: \<open>spawnSync\<close> does not throw, it returns
  the status \<open>null\<close>; the \<open>catch\<close> block that holds the \<open>find\<close> fallback
  is not entered, and the result is empty although \<open>find\<close> would list a file.
\<close>

theorem globTool_no_fallback:
  "spawnSync rg_missing_env ''rg'' (rg_files_args ''**/*.ts'') (Some ''/w'')
     = Returned \<lparr>status = None, stdout = [], stderr = []\<rparr>
   \<and> spawnSync rg_missing_env ''find'' (find_name_args ''/w'' ''**/*.ts'') None
     = Returned \<lparr>status = Some 0, stdout = ''/w/src/a.ts\<newline>'', stderr = []\<rparr>
   \<and> globTool rg_missing_env ''**/*.ts'' (Some ''/w'') = empty_glob"
proof -
  have rg: "spawnSync rg_missing_env ''rg'' (rg_files_args ''**/*.ts'')
        (Some (dir_or_cwd rg_missing_env (Some ''/w'')))
     = Returned \<lparr>status = None, stdout = [], stderr = []\<rparr>"
    by (simp add: rg_missing_env_def)
  have "globTool rg_missing_env ''**/*.ts'' (Some ''/w'') = empty_glob"
    by (rule globTool_rg_not_ok [OF rg]) simp
  then show ?thesis
    by (simp add: rg_missing_env_def)
qed


section \<open>The grep tool: no matches, and the fallback\<close>

lemma grepTool_rg_returned:
  assumes "spawnSync env ''rg'' (rg_args pattern inc (dir_or_cwd env directory)) None = Returned result"
  shows "status result = Some 1 \<Longrightarrow> grepTool env pattern directory inc = empty_grep"
    and "status result \<noteq> Some 0 \<Longrightarrow> status result \<noteq> Some 1 \<Longrightarrow>
         grepTool env pattern directory inc
           = grep_fallback (spawnSync env ''grep'' (grep_args pattern inc (dir_or_cwd env directory)) None)"
  using assms by (simp_all add: grepTool_def Let_def)

lemma grep_fallback_matches:
  "stdout out \<noteq> [] \<Longrightarrow>
   matches (grep_fallback (Returned out))
     = map (parse_match CHR '':'') (take 100 (parse_lines (stdout out)))"
  by (simp add: grep_fallback_def Let_def js_slice_0)

text \<open>
  Claim C6. Let ripgrep return (with or without having run). Exit status 1 gives the
  empty result, and the tool does not throw. Any status other than 0 and 1, the
  \<open>null\<close> status of a program that is not installed included, gives the result of
  the \<open>grep\<close> fallback. The fallback passes the same \<open>include\<close> filter
  (\<open>--include\<close> where ripgrep got \<open>--glob\<close>) and none of the ignore patterns that
  ripgrep got, and its matches are the first 100 output lines as parsed: no line is
  dropped for lying under an ignored directory.
\<close>

theorem grepTool_no_match_and_fallback:
  assumes "spawnSync env ''rg'' (rg_args pattern inc (dir_or_cwd env directory)) None = Returned result"
  shows "(status result = Some 1 \<longrightarrow> grepTool env pattern directory inc = empty_grep)
       \<and> (status result \<noteq> Some 0 \<longrightarrow> status result \<noteq> Some 1 \<longrightarrow>
            grepTool env pattern directory inc
              = grep_fallback (spawnSync env ''grep''
                                 (grep_args pattern inc (dir_or_cwd env directory)) None)
            \<and> grep_args pattern inc (dir_or_cwd env directory)
                = [''-rn'', ''-E'', pattern]
                  @ (if include_given inc then [''--include'', the inc] else [])
                  @ [dir_or_cwd env directory]
            \<and> (\<forall>out. spawnSync env ''grep'' (grep_args pattern inc (dir_or_cwd env directory)) None
                        = Returned out \<longrightarrow> stdout out \<noteq> [] \<longrightarrow>
                  matches (grepTool env pattern directory inc)
                    = map (parse_match CHR '':'') (take 100 (parse_lines (stdout out)))))
       \<and> rg_args pattern inc (dir_or_cwd env directory)
           = [''-n'', ''-H'', ''--field-match-separator=|'', ''--regexp'', pattern]
             @ (if include_given inc then [''--glob'', the inc] else [])
             @ concat (map (\<lambda>ignore. [''--glob'', ''!'' @ ignore @ ''*'']) IGNORE_PATTERNS)
             @ [dir_or_cwd env directory]"
  using grepTool_rg_returned [OF assms]
  by (auto simp add: grep_fallback_matches grep_args_def rg_args_def)

text \<open>Ripgrep missing, \<open>grep\<close> reporting a match under \<open>node_modules\<close>.\<close>

theorem grepTool_no_match_and_fallback_witness:
  "grepTool rg_missing_env ''foo'' None (Some ''*.js'')
     = \<lparr>matches = [\<lparr>match_file = ''/w/node_modules/x.js'', match_line = 3, match_content = ''foo''\<rparr>,
                   \<lparr>match_file = ''/w/a.js'', match_line = 7, match_content = ''foo: bar''\<rparr>],
        grep_count = 2, grep_truncated = False\<rparr>
   \<and> grep_args ''foo'' (Some ''*.js'') ''/w'' = [''-rn'', ''-E'', ''foo'', ''--include'', ''*.js'', ''/w'']"
proof -
  have rg: "spawnSync rg_missing_env ''rg'' (rg_args ''foo'' (Some ''*.js'') (dir_or_cwd rg_missing_env None)) None
      = Returned \<lparr>status = None, stdout = [], stderr = []\<rparr>"
    by (simp add: rg_missing_env_def)
  have sp: "spawnSync rg_missing_env ''grep'' args None
      = Returned \<lparr>status = Some 0,
                  stdout = ''/w/node_modules/x.js:3:foo\<newline>/w/a.js:7:foo: bar\<newline>'',
                  stderr = []\<rparr>" for args
    by (simp add: rg_missing_env_def)
  have fb: "grep_fallback (Returned \<lparr>status = Some 0,
                  stdout = ''/w/node_modules/x.js:3:foo\<newline>/w/a.js:7:foo: bar\<newline>'',
                  stderr = []\<rparr>)
     = \<lparr>matches = [\<lparr>match_file = ''/w/node_modules/x.js'', match_line = 3, match_content = ''foo''\<rparr>,
                   \<lparr>match_file = ''/w/a.js'', match_line = 7, match_content = ''foo: bar''\<rparr>],
        grep_count = 2, grep_truncated = False\<rparr>"
    by code_simp
  have d: "dir_or_cwd rg_missing_env None = ''/w''"
    by (simp add: dir_or_cwd_def rg_missing_env_def)
  from grepTool_no_match_and_fallback [OF rg]
  have "grepTool rg_missing_env ''foo'' None (Some ''*.js'')
          = grep_fallback (spawnSync rg_missing_env ''grep''
               (grep_args ''foo'' (Some ''*.js'') (dir_or_cwd rg_missing_env None)) None)
       \<and> grep_args ''foo'' (Some ''*.js'') (dir_or_cwd rg_missing_env None)
                = [''-rn'', ''-E'', ''foo'']
                  @ (if include_given (Some ''*.js'') then [''--include'', the (Some ''*.js'')] else [])
                  @ [dir_or_cwd rg_missing_env None]"
    by simp
  then show ?thesis
    by (simp add: sp fb d include_given_def)
qed


section \<open>The list tool: the count and the truncation flag\<close>

lemma listTool_count_truncated:
  assumes "spawnSync env ''find''
             (find_files_args (path_resolve (proc_cwd env)
                 [proc_cwd env, (case directory of None \<Rightarrow> ''.'' | Some d \<Rightarrow> if d = [] then ''.'' else d)])
               (IGNORE_PATTERNS @ ignore)) None = Returned result"
    and "status result = Some 0" and "stdout result \<noteq> []"
  shows "fileCount (listTool env directory ignore) = min 100 (length (parse_lines (stdout result)))
       \<and> list_truncated (listTool env directory ignore)
           = (100 \<le> length (parse_lines (stdout result)))"
  using assms by (simp add: listTool_def Let_def js_slice_0)

lemma find100_lines:
  "length (parse_lines find100_stdout) = 100"
  unfolding find100_stdout_def by code_simp

text \<open>
  Claim C3 for the list tool, at a directory of exactly 100 files: all 100 are kept
  (\<open>fileCount = 100\<close>), nothing was cut, and \<open>truncated\<close> is true. For the glob
  tool the claim holds (\<open>globTool_count_truncated\<close>).
\<close>

theorem listTool_truncated_at_limit:
  "spawnSync find100_env ''find'' (find_files_args ''/w'' IGNORE_PATTERNS) None
     = Returned \<lparr>status = Some 0,
                 stdout = find100_stdout,
                 stderr = []\<rparr>
   \<and> length (parse_lines find100_stdout) = 100
   \<and> fileCount (listTool find100_env None []) = 100
   \<and> list_truncated (listTool find100_env None []) = True"
proof -
  have sp: "spawnSync find100_env ''find'' args wd
     = Returned \<lparr>status = Some 0,
                 stdout = find100_stdout,
                 stderr = []\<rparr>" for args wd
    by (simp add: find100_env_def)
  have ne: "find100_stdout \<noteq> []"
    using find100_lines by (auto simp: parse_lines_def trim_def split_on_def)
  from listTool_count_truncated [of find100_env None "[]", OF sp]
  show ?thesis
    using ne by (simp add: sp find100_lines)
qed


section \<open>The clone step: a cached clone is reused\<close>

lemma cloneExists_mkdirSync:
  "cloneExists w path br \<Longrightarrow> cloneExists (mkdirSync p w) path br"
  by (auto simp: cloneExists_def mkdirSync_def getCurrentBranch_def Let_def split: if_splits)

lemma cloneRepoStep_cached:
  assumes "cloneExists w (getRepoPath wd repoUrl br) br"
  shows "cloneRepoStep git wd w repoUrl q br =
     (Inr \<lparr>repoPath = getRepoPath wd repoUrl br, question = q, branch = br\<rparr>,
      (if REPOS_DIR wd \<in> existing w then w else mkdirSync (REPOS_DIR wd) w),
      (if REPOS_DIR wd \<in> existing w then [] else [Mkdir (REPOS_DIR wd)]))"
  using assms cloneExists_mkdirSync [OF assms, of "REPOS_DIR wd"]
  by (simp add: cloneRepoStep_def Let_def)

text \<open>
  Claim C7. Let the derived path hold a valid entry: its \<open>.git\<close> directory exists
  and, when a branch is requested, the current branch there is the requested one. Then
  the step returns the derived path and runs neither \<open>git clone\<close> nor \<open>rmSync\<close>;
  the entry is still valid in the world it leaves, and a second run from that world
  returns the same path and does nothing at all.
\<close>

theorem cloneRepoStep_idempotent:
  assumes git_dir: "path_join [getRepoPath wd repoUrl br, ''.git''] \<in> existing w"
    and on_branch: "branch_given br \<Longrightarrow> getCurrentBranch w (getRepoPath wd repoUrl br) = br"
  shows "\<exists>w' done.
           cloneRepoStep git wd w repoUrl q br
             = (Inr \<lparr>repoPath = getRepoPath wd repoUrl br, question = q, branch = br\<rparr>, w', done)
         \<and> (\<forall>args. GitClone args \<notin> set done)
         \<and> (\<forall>p. Rm p \<notin> set done)
         \<and> cloneExists w' (getRepoPath wd repoUrl br) br
         \<and> cloneRepoStep git wd w' repoUrl q br
             = (Inr \<lparr>repoPath = getRepoPath wd repoUrl br, question = q, branch = br\<rparr>, w', [])"
proof -
  have assms: "cloneExists w (getRepoPath wd repoUrl br) br"
    using git_dir on_branch by (simp add: cloneExists_def Let_def)
  show ?thesis
  proof (cases "REPOS_DIR wd \<in> existing w")
  case True
  with cloneRepoStep_cached [OF assms, of git q] assms show ?thesis
    by auto
next
  case False
  let ?w' = "mkdirSync (REPOS_DIR wd) w"
  have v: "cloneExists ?w' (getRepoPath wd repoUrl br) br"
    using assms by (rule cloneExists_mkdirSync)
  have r: "REPOS_DIR wd \<in> existing ?w'"
    by (simp add: mkdirSync_def)
  from cloneRepoStep_cached [OF assms, of git q] cloneRepoStep_cached [OF v, of git q] False r v
  show ?thesis
    by auto
  qed
qed

text \<open>The cached clone of \<open>o/n\<close> on \<open>main\<close>, with the network down.\<close>

theorem cloneRepoStep_idempotent_witness:
  "\<exists>w' done.
     cloneRepoStep offline_git ''/srv/app/src/mastra'' cached_world ''https://github.com/o/n''
         ''How do I create an agent?'' (Some ''main'')
       = (Inr \<lparr>repoPath = ''/srv/app/.repos/o/n@main'',
                 question = ''How do I create an agent?'', branch = Some ''main''\<rparr>, w', done)
     \<and> (\<forall>args. GitClone args \<notin> set done)"
proof -
  have p: "getRepoPath ''/srv/app/src/mastra'' ''https://github.com/o/n'' (Some ''main'')
             = ''/srv/app/.repos/o/n@main''"
    by code_simp
  have g: "path_join [''/srv/app/.repos/o/n@main'', ''.git''] = ''/srv/app/.repos/o/n@main/.git''"
    by code_simp
  have t: "trim ''main\<newline>'' = ''main''"
    by code_simp
  have 1: "path_join [getRepoPath ''/srv/app/src/mastra'' ''https://github.com/o/n'' (Some ''main''),
              ''.git''] \<in> existing cached_world"
    by (simp add: p g cached_world_def)
  have 2: "getCurrentBranch cached_world
             (getRepoPath ''/srv/app/src/mastra'' ''https://github.com/o/n'' (Some ''main''))
           = Some ''main''"
    by (simp add: getCurrentBranch_def cached_world_def t)
  from cloneRepoStep_idempotent [OF 1 2, of offline_git "''How do I create an agent?''"]
  show ?thesis
    unfolding p by blast
qed


section \<open>Searching the documentation\<close>

text \<open>The code's substring test and line loop against the specification's words.\<close>

lemma startsWith_iff: "startsWith s t \<longleftrightarrow> (\<exists>b. s = t @ b)"
proof
  assume "startsWith s t"
  then have "s = t @ drop (length t) s"
    unfolding startsWith_def by (metis append_take_drop_id)
  then show "\<exists>b. s = t @ b" ..
next
  assume "\<exists>b. s = t @ b"
  then show "startsWith s t"
    by (auto simp: startsWith_def)
qed

lemma str_includes_iff: "str_includes s t \<longleftrightarrow> (\<exists>a b. s = a @ t @ b)"
proof (induction s)
  case Nil
  then show ?case by auto
next
  case (Cons c cs)
  have "(\<exists>a b. c # cs = a @ t @ b) \<longleftrightarrow> (\<exists>b. c # cs = t @ b) \<or> (\<exists>a b. cs = a @ t @ b)"
  proof
    assume "\<exists>a b. c # cs = a @ t @ b"
    then obtain a b where ab: "c # cs = a @ t @ b" by blast
    show "(\<exists>b. c # cs = t @ b) \<or> (\<exists>a b. cs = a @ t @ b)"
    proof (cases a)
      case Nil
      with ab show ?thesis by auto
    next
      case (Cons x a')
      with ab have "cs = a' @ t @ b" by simp
      then show ?thesis by blast
    qed
  next
    assume "(\<exists>b. c # cs = t @ b) \<or> (\<exists>a b. cs = a @ t @ b)"
    then show "\<exists>a b. c # cs = a @ t @ b"
    proof
      assume "\<exists>b. c # cs = t @ b"
      then obtain b where "c # cs = [] @ t @ b" by auto
      then show ?thesis by blast
    next
      assume "\<exists>a b. cs = a @ t @ b"
      then obtain a b where "c # cs = (c # a) @ t @ b" by auto
      then show ?thesis by blast
    qed
  qed
  with Cons show ?case
    by (simp add: startsWith_iff)
qed

lemma line_matches_iff: "line_matches terms ln = contains_term terms ln"
  by (simp add: line_matches_def contains_term_def list_ex_iff str_includes_iff)

lemma scan_lines_eq:
  "scan_lines terms i ls =
     map (\<lambda>(j, ln). \<lparr>doc_line = j + 1, doc_content = take 200 ln\<rparr>)
       (filter (\<lambda>(j, ln). contains_term terms ln) (enumerate i ls))"
  by (induction ls arbitrary: i) (simp_all add: line_matches_iff js_slice_0)

lemma scan_lines_matching:
  "scan_lines terms 0 (split_on CHR 0x0A txt) = matching_lines terms txt"
  by (simp add: scan_lines_eq matching_lines_def)

lemma length_filter_enumerate:
  "length (filter (\<lambda>(j, x). P x) (enumerate i xs)) = length (filter P xs)"
  by (induction xs arbitrary: i) simp_all

lemma length_matching_lines:
  "length (matching_lines terms txt) = matching_line_count terms txt"
  by (simp add: matching_lines_def matching_line_count_def length_filter_enumerate)

lemma matching_lines_member:
  assumes "mt \<in> set (matching_lines terms txt)"
  shows "\<exists>i<length (split_on CHR 0x0A txt).
           doc_line mt = i + 1
           \<and> doc_content mt = take 200 (split_on CHR 0x0A txt ! i)
           \<and> contains_term terms (split_on CHR 0x0A txt ! i)"
proof -
  from assms obtain i ln where
    e: "(i, ln) \<in> set (enumerate 0 (split_on CHR 0x0A txt))"
    and c: "contains_term terms ln"
    and m: "mt = \<lparr>doc_line = i + 1, doc_content = take 200 ln\<rparr>"
    by (auto simp: matching_lines_def)
  from e have "i < length (split_on CHR 0x0A txt)" and "ln = split_on CHR 0x0A txt ! i"
    by (auto simp: in_set_enumerate_eq)
  with c m show ?thesis by auto
qed

lemma scan_file_eq:
  "scan_file terms f =
     (if 0 < matching_line_count terms (doc_text f)
      then [\<lparr>doc_file = relativePath f,
             doc_matches = take 5 (matching_lines terms (doc_text f)),
             score = matching_line_count terms (doc_text f)\<rparr>]
      else [])"
  by (simp add: scan_file_def Let_def scan_lines_matching js_slice_0
      length_matching_lines [symmetric])

lemma scan_files_eq: "scan_files terms fs = matching_files terms fs"
  by (induction fs) (simp_all add: scan_files_def matching_files_def scan_file_eq)

lemma matching_files_member:
  assumes "x \<in> set (matching_files terms fs)"
  shows "\<exists>f\<in>set fs. doc_file x = relativePath f
           \<and> score x = matching_line_count terms (doc_text f)
           \<and> doc_matches x = take 5 (matching_lines terms (doc_text f))"
  using assms by (auto simp: matching_files_def)

lemma length_matching_files:
  "length (matching_files terms fs)
     = length (filter (\<lambda>f. 0 < matching_line_count terms (doc_text f)) fs)"
  by (simp add: matching_files_def)

lemma sum_score_matching_files:
  "sum_list (map score (matching_files terms fs))
     = sum_list (map (\<lambda>f. matching_line_count terms (doc_text f)) fs)"
  by (induction fs) (simp_all add: matching_files_def)

lemma foldl_score: "foldl (\<lambda>sum r. sum + score r) a rs = a + sum_list (map score rs)"
  by (induction rs arbitrary: a) auto

lemma sorted_by_score:
  "sorted_wrt (\<lambda>a b. score b \<le> score a) (sort_key (\<lambda>x. - int (score x)) rs)"
proof -
  have "sorted (map (\<lambda>r. - int (score r)) (sort_key (\<lambda>x. - int (score x)) rs))"
    by (rule sorted_sort_key)
  then show ?thesis
    by (simp add: sorted_map)
qed

lemma searchDocsTool_found:
  assumes "getDocsPath env repo = Some docsPath"
    and "findMarkdownFiles env docsPath docsPath = Inr fs"
  shows "searchDocsTool env repo query m =
     Inr \<lparr>results = js_slice 0 (maxResults_of m)
                       (sort_key (\<lambda>x. - int (score x)) (matching_files (searchTerms query) fs)),
          totalMatches = sum_list (map (\<lambda>f. matching_line_count (searchTerms query) (doc_text f)) fs)\<rparr>"
  using assms
  by (simp add: searchDocsTool_def Let_def foldl_score rank_def scan_files_eq
      sum_score_matching_files)

lemma searchDocsTool_no_docs:
  "getDocsPath env repo = None \<Longrightarrow>
   searchDocsTool env repo query m = Inr \<lparr>results = [], totalMatches = 0\<rparr>"
  by (simp add: searchDocsTool_def Let_def)

lemma top_of_sorted:
  assumes "sorted_wrt R xs" and "x \<in> set (take n xs)" and "y \<in> set xs" and "y \<notin> set (take n xs)"
  shows "R x y"
proof -
  have "y \<in> set (drop n xs)"
    using assms(3,4) by (metis Un_iff append_take_drop_id set_append)
  moreover have "sorted_wrt R (take n xs @ drop n xs)"
    using assms(1) by simp
  ultimately show ?thesis
    using assms(2) by (auto simp only: sorted_wrt_append)
qed

text \<open>
  Claim C5. Let the repository have a docs folder whose markdown files are \<open>fs\<close>.
  The search returns a result in which every returned file carries the first 5 of its
  matching lines, each with its 1-based line number and the first 200 characters of
  that line, and a \<open>score\<close> equal to the number of all its matching lines; the
  returned files are in descending order of score; for \<open>maxResults \<ge> 0\<close> they are
  the first \<open>maxResults\<close> of the matching files sorted by descending score, so no
  matching file left out has a higher score than a returned one; and
  \<open>totalMatches\<close> is the sum of the matching-line counts of all doc files, returned
  or not.
\<close>

theorem searchDocsTool_scores_and_ranking:
  assumes "getDocsPath env repo = Some docsPath"
    and "findMarkdownFiles env docsPath docsPath = Inr fs"
  shows "\<exists>r. searchDocsTool env repo query m = Inr r
       \<and> (\<forall>x\<in>set (results r).
             length (doc_matches x) \<le> 5
             \<and> (\<forall>mt\<in>set (doc_matches x). length (doc_content mt) \<le> 200)
             \<and> (\<exists>f\<in>set fs. doc_file x = relativePath f
                   \<and> score x = matching_line_count (searchTerms query) (doc_text f)
                   \<and> doc_matches x = take 5 (matching_lines (searchTerms query) (doc_text f))
                   \<and> (\<forall>mt\<in>set (doc_matches x).
                         \<exists>i<length (split_on CHR 0x0A (doc_text f)).
                           doc_line mt = i + 1
                           \<and> doc_content mt = take 200 (split_on CHR 0x0A (doc_text f) ! i)
                           \<and> contains_term (searchTerms query)
                                (split_on CHR 0x0A (doc_text f) ! i))))
       \<and> sorted_wrt (\<lambda>a b. score b \<le> score a) (results r)
       \<and> (0 \<le> maxResults_of m \<longrightarrow>
            results r = take (nat (maxResults_of m))
                          (sort_key (\<lambda>x. - int (score x)) (matching_files (searchTerms query) fs))
            \<and> length (results r)
                = min (nat (maxResults_of m))
                    (length (filter (\<lambda>f. 0 < matching_line_count (searchTerms query) (doc_text f)) fs))
            \<and> (\<forall>x\<in>set (results r). \<forall>y\<in>set (matching_files (searchTerms query) fs).
                  y \<notin> set (results r) \<longrightarrow> score y \<le> score x))
       \<and> totalMatches r
           = sum_list (map (\<lambda>f. matching_line_count (searchTerms query) (doc_text f)) fs)"
proof -
  let ?terms = "searchTerms query"
  let ?all = "matching_files ?terms fs"
  let ?ranked = "sort_key (\<lambda>x. - int (score x)) ?all"
  let ?r = "\<lparr>results = js_slice 0 (maxResults_of m) ?ranked,
            totalMatches = sum_list (map (\<lambda>f. matching_line_count ?terms (doc_text f)) fs)\<rparr>"
  have run: "searchDocsTool env repo query m = Inr ?r"
    using assms by (rule searchDocsTool_found)
  have per_file: "length (doc_matches x) \<le> 5
        \<and> (\<forall>mt\<in>set (doc_matches x). length (doc_content mt) \<le> 200)
        \<and> (\<exists>f\<in>set fs. doc_file x = relativePath f
              \<and> score x = matching_line_count ?terms (doc_text f)
              \<and> doc_matches x = take 5 (matching_lines ?terms (doc_text f))
              \<and> (\<forall>mt\<in>set (doc_matches x).
                    \<exists>i<length (split_on CHR 0x0A (doc_text f)).
                      doc_line mt = i + 1
                      \<and> doc_content mt = take 200 (split_on CHR 0x0A (doc_text f) ! i)
                      \<and> contains_term ?terms (split_on CHR 0x0A (doc_text f) ! i)))"
    if "x \<in> set (results ?r)" for x
  proof -
    from that have "x \<in> set ?all"
      using set_js_slice [of 0 "maxResults_of m" ?ranked] by auto
    then obtain f where f: "f \<in> set fs" "doc_file x = relativePath f"
      "score x = matching_line_count ?terms (doc_text f)"
      "doc_matches x = take 5 (matching_lines ?terms (doc_text f))"
      using matching_files_member by blast
    have each: "\<exists>i<length (split_on CHR 0x0A (doc_text f)).
          doc_line mt = i + 1
          \<and> doc_content mt = take 200 (split_on CHR 0x0A (doc_text f) ! i)
          \<and> contains_term ?terms (split_on CHR 0x0A (doc_text f) ! i)"
      if "mt \<in> set (doc_matches x)" for mt
    proof -
      from that have "mt \<in> set (matching_lines ?terms (doc_text f))"
        unfolding f(4) by (rule in_set_takeD)
      then show ?thesis by (rule matching_lines_member)
    qed
    have "length (doc_matches x) \<le> 5"
      by (simp add: f(4))
    moreover have "length (doc_content mt) \<le> 200" if "mt \<in> set (doc_matches x)" for mt
      using each [OF that] by auto
    ultimately show ?thesis
      using f each by blast
  qed
  have ordered: "sorted_wrt (\<lambda>a b. score b \<le> score a) (results ?r)"
    by (simp add: sorted_wrt_js_slice sorted_by_score)
  have top: "results ?r = take (nat (maxResults_of m)) ?ranked
        \<and> length (results ?r)
            = min (nat (maxResults_of m))
                (length (filter (\<lambda>f. 0 < matching_line_count ?terms (doc_text f)) fs))
        \<and> (\<forall>x\<in>set (results ?r). \<forall>y\<in>set ?all. y \<notin> set (results ?r) \<longrightarrow> score y \<le> score x)"
    if nonneg: "0 \<le> maxResults_of m"
  proof -
    have t: "results ?r = take (nat (maxResults_of m)) ?ranked"
      using nonneg by (simp add: js_slice_0)
    have "score y \<le> score x"
      if "x \<in> set (results ?r)" "y \<in> set ?all" "y \<notin> set (results ?r)" for x y
      using top_of_sorted [OF sorted_by_score, of x "nat (maxResults_of m)" ?all y] that
      unfolding t by simp
    then show ?thesis
      unfolding t by (auto simp: length_matching_files min_def)
  qed
  have total: "totalMatches ?r = sum_list (map (\<lambda>f. matching_line_count ?terms (doc_text f)) fs)"
    by simp
  show ?thesis
    using run per_file ordered top total by blast
qed

lemma docs_fs_path: "getDocsPath docs_fs ''/repo'' = Some ''/repo/docs''"
  by code_simp

lemma docs_fs_files:
  "findMarkdownFiles docs_fs ''/repo/docs'' ''/repo/docs'' =
     Inr [\<lparr>doc_path = ''/repo/docs/notes.md'', relativePath = ''notes.md'',
            doc_text = ''Intro\<newline>uses Memory here\<newline>end''\<rparr>,
          \<lparr>doc_path = ''/repo/docs/guide.md'', relativePath = ''guide.md'',
            doc_text = ''Agent setup\<newline>the agent runs\<newline>plain\<newline>agent memory''\<rparr>]"
  by code_simp

lemma caps_fs_path: "getDocsPath caps_fs ''/repo'' = Some ''/repo/docs''"
  by code_simp

lemma caps_fs_files: "findMarkdownFiles caps_fs ''/repo/docs'' ''/repo/docs'' = Inr caps_files"
  by code_simp

lemma caps_scan: "scan_files (searchTerms ''agent'') caps_files = caps_scanned"
  by code_simp

lemma caps_ranked:
  "map doc_file (take 2 (sort_key (\<lambda>x. - int (score x)) caps_scanned))
     = [''long.md'', ''more.md'']"
  "map score (take 2 (sort_key (\<lambda>x. - int (score x)) caps_scanned)) = [7, 2]"
  "map (\<lambda>x. map doc_line (doc_matches x)) (take 2 (sort_key (\<lambda>x. - int (score x)) caps_scanned))
     = [[1, 2, 3, 4, 5], [1, 3]]"
  "map (\<lambda>x. map (\<lambda>mt. length (doc_content mt)) (doc_matches x))
     (take 2 (sort_key (\<lambda>x. - int (score x)) caps_scanned)) = [[5, 200, 5, 5, 5], [5, 5]]"
  "sum_list (map score caps_scanned) = 10"
  by code_simp+

text \<open>The three documents of \<open>caps_fs\<close>, searched for \<open>agent\<close> with
  \<open>maxResults = 2\<close>: seven matches are cut to five, a line of 306 characters to 200,
  and the file with a single match is left out but counted.\<close>

theorem searchDocsTool_scores_and_ranking_witness:
  "\<exists>r. searchDocsTool caps_fs ''/repo'' ''agent'' (Some 2) = Inr r
       \<and> map doc_file (results r) = [''long.md'', ''more.md'']
       \<and> map score (results r) = [7, 2]
       \<and> map (\<lambda>x. map doc_line (doc_matches x)) (results r) = [[1, 2, 3, 4, 5], [1, 3]]
       \<and> map (\<lambda>x. map (\<lambda>mt. length (doc_content mt)) (doc_matches x)) (results r)
           = [[5, 200, 5, 5, 5], [5, 5]]
       \<and> totalMatches r = 10"
proof -
  from searchDocsTool_scores_and_ranking [OF caps_fs_path caps_fs_files, of "''agent''" "Some 2"]
  obtain r where run: "searchDocsTool caps_fs ''/repo'' ''agent'' (Some 2) = Inr r"
    and top: "0 \<le> maxResults_of (Some 2) \<longrightarrow>
       results r = take (nat (maxResults_of (Some 2)))
                     (sort_key (\<lambda>x. - int (score x)) (matching_files (searchTerms ''agent'') caps_files))"
    and total: "totalMatches r
       = sum_list (map (\<lambda>f. matching_line_count (searchTerms ''agent'') (doc_text f)) caps_files)"
    by blast
  have res: "results r = take 2 (sort_key (\<lambda>x. - int (score x)) caps_scanned)"
    using top by (simp add: maxResults_of_def scan_files_eq [symmetric] caps_scan)
  have tot: "totalMatches r = 10"
    unfolding total sum_score_matching_files [symmetric] scan_files_eq [symmetric] caps_scan
    by (rule caps_ranked(5))
  show ?thesis
    using run tot by (simp add: res caps_ranked)
qed


section \<open>A query with an empty token\<close>

lemma is_space_toLowerCase_char: "is_space (toLowerCase_char c) = is_space c"
  by (auto simp: toLowerCase_char_def is_space_def upper_letters_def lower_letters_def
      split: option.splits if_splits)

lemma split_ws_aux_not_Nil: "split_ws_aux acc s \<noteq> []"
  by (induction acc s rule: split_ws_aux.induct) auto

lemma split_ws_aux_last:
  "s \<noteq> [] \<Longrightarrow> is_space (last s) \<Longrightarrow> last (split_ws_aux acc s) = []"
proof (induction acc s rule: split_ws_aux.induct)
  case (1 acc)
  then show ?case by simp
next
  case (2 acc c cs)
  show ?case
  proof (cases "is_space c")
    case True
    show ?thesis
    proof (cases "dropWhile is_space cs = []")
      case True
      with \<open>is_space c\<close> show ?thesis by (simp del: dropWhile_eq_Nil_conv)
    next
      case False
      then have "cs \<noteq> []" by auto
      have "last (dropWhile is_space cs) = last cs"
        using False by (metis last_appendR takeWhile_dropWhile_id)
      with "2.prems" \<open>cs \<noteq> []\<close> have "is_space (last (dropWhile is_space cs))"
        by simp
      with "2.IH"(1) [OF True False] True show ?thesis
        by (simp add: split_ws_aux_not_Nil)
    qed
  next
    case False
    with "2.prems" have "cs \<noteq> []" by (cases cs) auto
    with 2 False show ?thesis by simp
  qed
qed

lemma searchTerms_empty_token:
  assumes "query = [] \<or> is_space (hd query) \<or> is_space (last query)"
  shows "[] \<in> set (searchTerms query)"
proof (cases query)
  case Nil
  then show ?thesis by (simp add: searchTerms_def split_ws_def toLowerCase_def)
next
  case (Cons c cs)
  show ?thesis
  proof (cases "is_space c")
    case True
    then show ?thesis
      using Cons by (simp add: searchTerms_def split_ws_def toLowerCase_def is_space_toLowerCase_char)
  next
    case False
    with assms Cons have "is_space (last query)" by simp
    moreover have "last (toLowerCase query) = toLowerCase_char (last query)"
      unfolding toLowerCase_def using Cons by (intro last_map) simp
    ultimately have "is_space (last (toLowerCase query))"
      by (simp add: is_space_toLowerCase_char)
    moreover have "toLowerCase query \<noteq> []"
      using Cons by (simp add: toLowerCase_def)
    ultimately have "last (split_ws_aux [] (toLowerCase query)) = []"
      by (simp add: split_ws_aux_last)
    then show ?thesis
      unfolding searchTerms_def split_ws_def
      by (metis last_in_set split_ws_aux_not_Nil)
  qed
qed

lemma contains_empty_term: "[] \<in> set terms \<Longrightarrow> contains_term terms ln"
  unfolding contains_term_def by (metis append_Nil)

lemma filter_enumerate_all: "filter (\<lambda>(j, ln). True) xs = xs"
  by (induction xs) auto

lemma matching_all:
  assumes "\<forall>ln. contains_term terms ln"
  shows "matching_lines terms txt
           = map (\<lambda>(j, ln). \<lparr>doc_line = j + 1, doc_content = take 200 ln\<rparr>)
               (enumerate 0 (split_on CHR 0x0A txt))"
    and "matching_line_count terms txt = length (split_on CHR 0x0A txt)"
    and "0 < matching_line_count terms txt"
  using assms
  by (simp_all add: matching_lines_def matching_line_count_def filter_enumerate_all split_on_def
      split_where_not_Nil)

lemma matching_files_all:
  assumes "\<forall>ln. contains_term terms ln"
  shows "matching_files terms fs
           = map (\<lambda>f. \<lparr>doc_file = relativePath f,
                        doc_matches = take 5 (map (\<lambda>(j, ln). \<lparr>doc_line = j + 1, doc_content = take 200 ln\<rparr>)
                                               (enumerate 0 (split_on CHR 0x0A (doc_text f)))),
                        score = length (split_on CHR 0x0A (doc_text f))\<rparr>) fs"
  by (simp add: matching_files_def matching_all [OF assms] split_on_def split_where_not_Nil)

text \<open>
  Claim C10, as the code has it. Let the query be empty, or begin or end with a
  whitespace character. Then the empty string is one of its search terms and every
  line matches, so every doc file is a matching file with a score equal to the number
  of its lines (and its first 5 lines, cut to 200 characters, as matches), and
  \<open>totalMatches\<close> is the number of lines of all doc files together. The search
  returns the first \<open>maxResults\<close> of these files in descending order of score: all
  of them, every doc file with its line count, when there are no more than
  \<open>maxResults\<close> doc files, and only \<open>maxResults\<close> of them otherwise.
\<close>

theorem searchDocsTool_empty_token:
  assumes "query = [] \<or> is_space (hd query) \<or> is_space (last query)"
    and "getDocsPath env repo = Some docsPath"
    and "findMarkdownFiles env docsPath docsPath = Inr fs"
  shows "[] \<in> set (searchTerms query)
       \<and> (\<forall>ln. contains_term (searchTerms query) ln)
       \<and> matching_files (searchTerms query) fs
           = map (\<lambda>f. \<lparr>doc_file = relativePath f,
                        doc_matches = take 5 (map (\<lambda>(j, ln). \<lparr>doc_line = j + 1, doc_content = take 200 ln\<rparr>)
                                               (enumerate 0 (split_on CHR 0x0A (doc_text f)))),
                        score = length (split_on CHR 0x0A (doc_text f))\<rparr>) fs
       \<and> (\<exists>r. searchDocsTool env repo query m = Inr r
              \<and> results r = js_slice 0 (maxResults_of m)
                               (sort_key (\<lambda>x. - int (score x)) (matching_files (searchTerms query) fs))
              \<and> totalMatches r = sum_list (map (\<lambda>f. length (split_on CHR 0x0A (doc_text f))) fs)
              \<and> (0 \<le> maxResults_of m \<longrightarrow>
                    length (results r) = min (nat (maxResults_of m)) (length fs))
              \<and> (int (length fs) \<le> maxResults_of m \<longrightarrow>
                    results r = sort_key (\<lambda>x. - int (score x)) (matching_files (searchTerms query) fs)
                    \<and> (\<forall>f\<in>set fs. \<exists>x\<in>set (results r).
                          doc_file x = relativePath f
                          \<and> score x = length (split_on CHR 0x0A (doc_text f)))))"
proof -
  let ?terms = "searchTerms query"
  let ?ranked = "sort_key (\<lambda>x. - int (score x)) (matching_files ?terms fs)"
  have e: "[] \<in> set ?terms"
    using assms(1) by (rule searchTerms_empty_token)
  then have all: "\<forall>ln. contains_term ?terms ln"
    by (simp add: contains_empty_term)
  note mf = matching_files_all [OF all, of fs]
  have len: "length ?ranked = length fs"
    by (simp add: mf)
  define r where "r = \<lparr>results = js_slice 0 (maxResults_of m) ?ranked,
            totalMatches = sum_list (map (\<lambda>f. matching_line_count ?terms (doc_text f)) fs)\<rparr>"
  have run: "searchDocsTool env repo query m = Inr r"
    unfolding r_def using assms(2,3) by (rule searchDocsTool_found)
  have res: "results r = js_slice 0 (maxResults_of m) ?ranked"
    by (simp add: r_def)
  have total: "totalMatches r = sum_list (map (\<lambda>f. length (split_on CHR 0x0A (doc_text f))) fs)"
    by (simp add: r_def matching_all(2) [OF all])
  have cut: "0 \<le> maxResults_of m \<longrightarrow> length (results r) = min (nat (maxResults_of m)) (length fs)"
    using len by (simp add: res js_slice_0 min_def)
  have whole: "int (length fs) \<le> maxResults_of m \<longrightarrow>
      results r = ?ranked
      \<and> (\<forall>f\<in>set fs. \<exists>x\<in>set (results r).
            doc_file x = relativePath f \<and> score x = length (split_on CHR 0x0A (doc_text f)))"
  proof (rule impI)
    assume le: "int (length fs) \<le> maxResults_of m"
    from le have "0 \<le> maxResults_of m" by linarith
    with le len have r: "results r = ?ranked"
      by (simp add: res js_slice_0)
    have "\<exists>x\<in>set ?ranked.
            doc_file x = relativePath f \<and> score x = length (split_on CHR 0x0A (doc_text f))"
      if "f \<in> set fs" for f
    proof -
      let ?x = "\<lparr>doc_file = relativePath f,
                 doc_matches = take 5 (map (\<lambda>(j, ln). \<lparr>doc_line = j + 1, doc_content = take 200 ln\<rparr>)
                                        (enumerate 0 (split_on CHR 0x0A (doc_text f)))),
                 score = length (split_on CHR 0x0A (doc_text f))\<rparr>"
      from that have "?x \<in> set (matching_files ?terms fs)"
        unfolding mf by auto
      then have "?x \<in> set ?ranked" by simp
      then show ?thesis by (intro bexI [of _ ?x]) simp_all
    qed
    with r show "results r = ?ranked
      \<and> (\<forall>f\<in>set fs. \<exists>x\<in>set (results r).
            doc_file x = relativePath f \<and> score x = length (split_on CHR 0x0A (doc_text f)))"
      by simp
  qed
  have "searchDocsTool env repo query m = Inr r
      \<and> results r = js_slice 0 (maxResults_of m) ?ranked
      \<and> totalMatches r = sum_list (map (\<lambda>f. length (split_on CHR 0x0A (doc_text f))) fs)
      \<and> (0 \<le> maxResults_of m \<longrightarrow>
            length (results r) = min (nat (maxResults_of m)) (length fs))
      \<and> (int (length fs) \<le> maxResults_of m \<longrightarrow>
            results r = ?ranked
            \<and> (\<forall>f\<in>set fs. \<exists>x\<in>set (results r).
                  doc_file x = relativePath f
                  \<and> score x = length (split_on CHR 0x0A (doc_text f))))"
    using run res total cut whole by blast
  then have ex: "\<exists>r. searchDocsTool env repo query m = Inr r
      \<and> results r = js_slice 0 (maxResults_of m) ?ranked
      \<and> totalMatches r = sum_list (map (\<lambda>f. length (split_on CHR 0x0A (doc_text f))) fs)
      \<and> (0 \<le> maxResults_of m \<longrightarrow>
            length (results r) = min (nat (maxResults_of m)) (length fs))
      \<and> (int (length fs) \<le> maxResults_of m \<longrightarrow>
            results r = ?ranked
            \<and> (\<forall>f\<in>set fs. \<exists>x\<in>set (results r).
                  doc_file x = relativePath f
                  \<and> score x = length (split_on CHR 0x0A (doc_text f))))" ..
  from e all mf ex show ?thesis
    by blast
qed

text \<open>The query \<open>agent\<close> followed by a space, and the query \<open>agent\<close> after a no-break
  space, on \<open>docs_fs\<close>: both files are returned, with 4 and 3 lines.\<close>

theorem searchDocsTool_empty_token_witness:
  "(\<exists>r. searchDocsTool docs_fs ''/repo'' ''agent '' None = Inr r
        \<and> totalMatches r = 7 \<and> map score (results r) = [4, 3])
   \<and> (\<exists>r. searchDocsTool docs_fs ''/repo'' (CHR 0xA0 # ''agent'') None = Inr r
        \<and> totalMatches r = 7 \<and> map score (results r) = [4, 3])"
proof -
  have q1: "''agent '' = [] \<or> is_space (hd ''agent '') \<or> is_space (last ''agent '')"
    by (simp add: is_space_def)
  have q2: "CHR 0xA0 # ''agent'' = [] \<or> is_space (hd (CHR 0xA0 # ''agent''))
              \<or> is_space (last (CHR 0xA0 # ''agent''))"
    by (simp add: is_space_def)
  have n: "length (split_on CHR 0x0A ''Intro\<newline>uses Memory here\<newline>end'') = 3"
    "length (split_on CHR 0x0A ''Agent setup\<newline>the agent runs\<newline>plain\<newline>agent memory'') = 4"
    by (simp_all add: split_on_def)
  have 1: "\<exists>r. searchDocsTool docs_fs ''/repo'' ''agent '' None = Inr r
        \<and> totalMatches r = 7 \<and> map score (results r) = [4, 3]"
    using searchDocsTool_empty_token [OF q1 docs_fs_path docs_fs_files, of None]
    by (auto simp add: n maxResults_of_def js_slice_0)
  have 2: "\<exists>r. searchDocsTool docs_fs ''/repo'' (CHR 0xA0 # ''agent'') None = Inr r
        \<and> totalMatches r = 7 \<and> map score (results r) = [4, 3]"
    using searchDocsTool_empty_token [OF q2 docs_fs_path docs_fs_files, of None]
    by (auto simp add: n maxResults_of_def js_slice_0)
  show ?thesis using 1 2 by blast
qed

text \<open>
  Claim C10 as stated fails where there are more doc files than \<open>maxResults\<close>: for the
  query \<open>agent\<close> followed by a space and \<open>maxResults = 1\<close>, the docs folder holds
  \<open>notes.md\<close> and \<open>guide.md\<close>, and only \<open>guide.md\<close> is reported.
\<close>

theorem searchDocsTool_empty_token_counterexample:
  "is_space (last ''agent '')
   \<and> map_sum id (map relativePath) (findMarkdownFiles docs_fs ''/repo/docs'' ''/repo/docs'')
       = Inr [''notes.md'', ''guide.md'']
   \<and> map_sum id (map doc_file \<circ> results) (searchDocsTool docs_fs ''/repo'' ''agent '' (Some 1))
       = Inr [''guide.md'']
   \<and> map_sum id totalMatches (searchDocsTool docs_fs ''/repo'' ''agent '' (Some 1)) = Inr 7"
  by code_simp


end
